theory Spec2Isabelle
  imports Main "HOL-Library.Word"
begin

section \<open>Bytes, big integers and fixed-size arrays\<close>

text \<open>
  A Go \<^verbatim>\<open>[]byte\<close> is a list of bytes. A \<^verbatim>\<open>common.Hash\<close> is a \<^verbatim>\<open>[32]byte\<close> and a
  \<^verbatim>\<open>common.Address\<close> a \<^verbatim>\<open>[20]byte\<close>: fixed-size arrays, modelled as words of 256 and 160
  bits whose big-endian bytes are read with \<open>word_bytes\<close>. A \<^verbatim>\<open>*big.Int\<close> is modelled by
  the (unbounded, signed) integer it points to.
\<close>

type_synonym byte = "8 word"
type_synonym hash = "256 word"
type_synonym address = "160 word"

definition word_bytes :: "nat \<Rightarrow> 'a::len word \<Rightarrow> byte list" where
  "word_bytes k w = map (\<lambda>i. ucast (drop_bit (8 * (k - Suc i)) w)) [0..<k]"

text \<open>\<^verbatim>\<open>big.Int.Bytes()\<close>: the absolute value as a big-endian byte slice, no leading zero.\<close>

fun nat_bytes :: "nat \<Rightarrow> byte list" where
  "nat_bytes n = (if n = 0 then [] else nat_bytes (n div 256) @ [of_nat (n mod 256)])"

declare nat_bytes.simps [simp del]

definition Bytes :: "int \<Rightarrow> byte list" where
  "Bytes x = nat_bytes (nat \<bar>x\<bar>)"

text \<open>\<^verbatim>\<open>big.Int.SetBytes(buf)\<close>: the big-endian unsigned value of \<open>buf\<close>.\<close>

definition bytes_nat :: "byte list \<Rightarrow> nat" where
  "bytes_nat bs = foldl (\<lambda>acc b. 256 * acc + unat b) 0 bs"

definition SetBytes :: "byte list \<Rightarrow> int" where
  "SetBytes bs = int (bytes_nat bs)"

text \<open>
  \<^verbatim>\<open>common.LeftPadBytes(slice, l)\<close> and \<^verbatim>\<open>common.RightPadBytes(slice, l)\<close>: a slice that is
  already \<open>l\<close> bytes or longer is returned as it is.
\<close>

definition LeftPadBytes :: "byte list \<Rightarrow> nat \<Rightarrow> byte list" where
  "LeftPadBytes bs l =
     (if l \<le> length bs then bs else replicate (l - length bs) 0 @ bs)"

definition RightPadBytes :: "byte list \<Rightarrow> nat \<Rightarrow> byte list" where
  "RightPadBytes bs l =
     (if l \<le> length bs then bs else bs @ replicate (l - length bs) 0)"

text \<open>\<^verbatim>\<open>math.U256Bytes(n)\<close>: \<open>n\<close> reduced to 256 bits (two's complement), as 32 bytes.\<close>

definition U256Bytes :: "int \<Rightarrow> byte list" where
  "U256Bytes n = LeftPadBytes (Bytes (n mod 2 ^ 256)) 32"

section \<open>Hexadecimal text\<close>

datatype error =
    ErrEmptyString
  | ErrMissingPrefix
  | ErrOddLength
  | ErrSyntax
  | InvalidByteError char
  | ErrLength
  | ArgumentCountMismatch nat nat
  | TypeErr
  | MethodNotFound string
  | External string
  | New string
  | Wrap error string
  | NilPointerPanic

text \<open>\<^verbatim>\<open>encoding/hex\<close>: lower-case digits on output, both cases accepted on input.\<close>

definition hextable :: string where
  "hextable = ''0123456789abcdef''"

definition hex_byte :: "byte \<Rightarrow> string" where
  "hex_byte b = [hextable ! (unat b div 16), hextable ! (unat b mod 16)]"

definition EncodeToString :: "byte list \<Rightarrow> string" where
  "EncodeToString bs = concat (map hex_byte bs)"

definition fromHexChar :: "char \<Rightarrow> nat option" where
  "fromHexChar c =
     (let n = (of_char c :: nat) in
      if 48 \<le> n \<and> n \<le> 57 then Some (n - 48)
      else if 97 \<le> n \<and> n \<le> 102 then Some (n - 87)
      else if 65 \<le> n \<and> n \<le> 70 then Some (n - 55)
      else None)"

fun DecodeString :: "string \<Rightarrow> error + byte list" where
  "DecodeString [] = Inr []"
| "DecodeString [p] =
     (case fromHexChar p of None \<Rightarrow> Inl (InvalidByteError p) | Some a \<Rightarrow> Inl ErrLength)"
| "DecodeString (p # q # rest) =
     (case fromHexChar p of
        None \<Rightarrow> Inl (InvalidByteError p)
      | Some a \<Rightarrow>
          (case fromHexChar q of
             None \<Rightarrow> Inl (InvalidByteError q)
           | Some b \<Rightarrow>
               (case DecodeString rest of
                  Inl e \<Rightarrow> Inl e
                | Inr bs \<Rightarrow> Inr (of_nat (16 * a + b) # bs))))"

text \<open>\<^verbatim>\<open>hexutil.Encode\<close> (which is also \<^verbatim>\<open>hexutil.Bytes.String()\<close>) and \<^verbatim>\<open>hexutil.Decode\<close>.\<close>

definition hexutil_Encode :: "byte list \<Rightarrow> string" where
  "hexutil_Encode b = ''0x'' @ EncodeToString b"

definition has0xPrefix :: "string \<Rightarrow> bool" where
  "has0xPrefix input =
     (2 \<le> length input \<and> input ! 0 = CHR ''0'' \<and> (input ! 1 = CHR ''x'' \<or> input ! 1 = CHR ''X''))"

fun mapError :: "error \<Rightarrow> error" where
  "mapError (InvalidByteError c) = ErrSyntax"
| "mapError ErrLength = ErrOddLength"
| "mapError e = e"

definition hexutil_Decode :: "string \<Rightarrow> error + byte list" where
  "hexutil_Decode input =
     (if length input = 0 then Inl ErrEmptyString
      else if \<not> has0xPrefix input then Inl ErrMissingPrefix
      else (case DecodeString (drop 2 input) of
              Inl e \<Rightarrow> Inl (mapError e)
            | Inr b \<Rightarrow> Inr b))"

text \<open>
  \<^verbatim>\<open>common.FromHex(s)\<close>: drops an optional \<^verbatim>\<open>0x\<close> prefix, prepends a \<^verbatim>\<open>0\<close> to a string of
  odd length and decodes, ignoring a decoding error (the bytes decoded so far are lost with
  it: \<^verbatim>\<open>Hex2Bytes\<close> returns what \<^verbatim>\<open>hex.DecodeString\<close> returned).
\<close>

definition FromHex :: "string \<Rightarrow> byte list" where
  "FromHex s =
     (let s1 = (if has0xPrefix s then drop 2 s else s);
          s2 = (if length s1 mod 2 = 1 then CHR ''0'' # s1 else s1)
      in case DecodeString s2 of Inl e \<Rightarrow> [] | Inr b \<Rightarrow> b)"

section \<open>The ABI encoder of go-ethereum, for the static types the client uses\<close>

text \<open>
  \<^verbatim>\<open>abi.Type\<close> restricted to addresses, unsigned integers and fixed byte arrays, and the Go
  values handed to the encoder: byte arrays (\<^verbatim>\<open>common.Address\<close>, \<^verbatim>\<open>common.Hash\<close>,
  \<^verbatim>\<open>[32]byte\<close>) and \<^verbatim>\<open>*big.Int\<close>.
\<close>

datatype abi_type = AddressTy | UintTy nat | FixedBytesTy nat

datatype go_value = GoArray "byte list" | GoBigInt int

text \<open>
  \<^verbatim>\<open>typeCheck\<close> compares the kind of the value with the kind of the Go type of the ABI type
  (an array for addresses and fixed bytes, \<^verbatim>\<open>*big.Int\<close> for integers of a size other than
  8, 16, 32 and 64 bits), and the length for fixed bytes.
\<close>

fun typeCheck :: "abi_type \<Rightarrow> go_value \<Rightarrow> error option" where
  "typeCheck AddressTy (GoArray bs) = None"
| "typeCheck AddressTy (GoBigInt x) = Some TypeErr"
| "typeCheck (UintTy n) (GoBigInt x) = (if n \<in> {8, 16, 32, 64} then Some TypeErr else None)"
| "typeCheck (UintTy n) (GoArray bs) = Some TypeErr"
| "typeCheck (FixedBytesTy n) (GoArray bs) = (if n \<noteq> length bs then Some TypeErr else None)"
| "typeCheck (FixedBytesTy n) (GoBigInt x) = Some TypeErr"

fun packElement :: "abi_type \<Rightarrow> go_value \<Rightarrow> byte list" where
  "packElement AddressTy (GoArray bs) = LeftPadBytes bs 32"
| "packElement (UintTy n) (GoBigInt x) = U256Bytes x"
| "packElement (FixedBytesTy n) (GoArray bs) = RightPadBytes bs 32"
| "packElement t v = []"

definition type_pack :: "abi_type \<Rightarrow> go_value \<Rightarrow> error + byte list" where
  "type_pack t v = (case typeCheck t v of Some e \<Rightarrow> Inl e | None \<Rightarrow> Inr (packElement t v))"

text \<open>\<^verbatim>\<open>Arguments.Pack\<close>: the arguments one after the other; the first failure ends it.\<close>

fun pack_each :: "abi_type list \<Rightarrow> go_value list \<Rightarrow> error + byte list" where
  "pack_each (t # ts) (a # as) =
     (case type_pack t a of
        Inl e \<Rightarrow> Inl e
      | Inr packed \<Rightarrow>
          (case pack_each ts as of Inl e \<Rightarrow> Inl e | Inr ret \<Rightarrow> Inr (packed @ ret)))"
| "pack_each ts as = Inr []"

definition Arguments_Pack :: "abi_type list \<Rightarrow> go_value list \<Rightarrow> error + byte list" where
  "Arguments_Pack arguments args =
     (if length args \<noteq> length arguments
      then Inl (ArgumentCountMismatch (length args) (length arguments))
      else pack_each arguments args)"

text \<open>
  Modelled from the spec: the package-level ABI types \<^verbatim>\<open>address\<close>, \<^verbatim>\<open>uint256\<close> and
  \<^verbatim>\<open>bytes32\<close> that \<^verbatim>\<open>PackUserOperation\<close> and \<^verbatim>\<open>GetUserOperationHash\<close> use are declared in a
  file that is not among the sources; the spec names the encoding "address / uint256 /
  bytes32 tuple encoding".
\<close>

definition address :: abi_type where
  "address = AddressTy"

definition uint256 :: abi_type where
  "uint256 = UintTy 256"

definition bytes32 :: abi_type where
  "bytes32 = FixedBytesTy 32"

section \<open>The user operation\<close>

text \<open>
  Modelled from the spec: the declaration of \<^verbatim>\<open>UserOperation\<close> is not among the sources.
  The fields are those the code reads and writes; the integer fields are big integers
  (the code calls \<^verbatim>\<open>Bytes()\<close> on them and packs them as \<^verbatim>\<open>uint256\<close>), the sender is an
  address, the rest are byte slices. The zero value is what \<^verbatim>\<open>var op UserOperation\<close> gives.
\<close>

record UserOperation =
  Sender :: address
  Nonce :: int
  CallData :: "byte list"
  CallGasLimit :: int
  VerificationGasLimit :: int
  PreVerificationGas :: int
  MaxFeePerGas :: int
  MaxPriorityFeePerGas :: int
  Paymaster :: "byte list"
  PaymasterVerificationGasLimit :: int
  PaymasterPostOpGasLimit :: int
  PaymasterData :: "byte list"
  Signature :: "byte list"

definition zero_UserOperation :: UserOperation where
  "zero_UserOperation =
     \<lparr>Sender = 0, Nonce = 0, CallData = [], CallGasLimit = 0, VerificationGasLimit = 0,
      PreVerificationGas = 0, MaxFeePerGas = 0, MaxPriorityFeePerGas = 0, Paymaster = [],
      PaymasterVerificationGasLimit = 0, PaymasterPostOpGasLimit = 0, PaymasterData = [],
      Signature = []\<rparr>"

section \<open>Packing and hashing (EntrypointClient07)\<close>

text \<open>\<^verbatim>\<open>createPackedBuffer\<close>: both halves left-padded to 16 bytes, written one after the other.\<close>

definition createPackedBuffer :: "byte list \<Rightarrow> byte list \<Rightarrow> byte list" where
  "createPackedBuffer first second = LeftPadBytes first 16 @ LeftPadBytes second 16"

definition createPaymasterDataBuffer ::
  "byte list \<Rightarrow> byte list \<Rightarrow> byte list \<Rightarrow> byte list \<Rightarrow> byte list" where
  "createPaymasterDataBuffer paymaster verificationGas postOpGas paymasterData =
     paymaster @ LeftPadBytes verificationGas 16 @ LeftPadBytes postOpGas 16 @ paymasterData"

text \<open>
  \<^verbatim>\<open>toArray32\<close>: \<^verbatim>\<open>copy\<close> into a zeroed \<^verbatim>\<open>[32]byte\<close> copies as many bytes as fit, so a longer
  buffer loses its tail and a shorter one is followed by zeros.
\<close>

definition toArray32 :: "byte list \<Rightarrow> byte list" where
  "toArray32 buffer = take 32 buffer @ replicate (32 - length buffer) 0"

text \<open>
  \<^verbatim>\<open>crypto.Keccak256Hash\<close> is the parameter \<open>keccak\<close> of every function that hashes: the
  theorems hold for any function from byte strings to 32-byte digests.
\<close>

definition PackUserOperation :: "(byte list \<Rightarrow> hash) \<Rightarrow> UserOperation \<Rightarrow> error + byte list" where
  "PackUserOperation keccak op =
     (let args = [address, uint256, bytes32, bytes32, bytes32, uint256, bytes32, bytes32];
          hashedInitCode = keccak (FromHex ''0x'');
          hashedCallData = keccak (CallData op);
          accountGasLimits =
            createPackedBuffer (Bytes (VerificationGasLimit op)) (Bytes (CallGasLimit op));
          gasFees =
            createPackedBuffer (Bytes (MaxPriorityFeePerGas op)) (Bytes (MaxFeePerGas op));
          hashedPaymasterAndData = keccak []
      in case Arguments_Pack args
             [GoArray (word_bytes 20 (Sender op)),
              GoBigInt (Nonce op),
              GoArray (word_bytes 32 hashedInitCode),
              GoArray (word_bytes 32 hashedCallData),
              GoArray (toArray32 accountGasLimits),
              GoBigInt (PreVerificationGas op),
              GoArray (toArray32 gasFees),
              GoArray (word_bytes 32 hashedPaymasterAndData)] of
           Inl err \<Rightarrow> Inl err
         | Inr packed \<Rightarrow> Inr packed)"

text \<open>
  The spec's wording of the packed layout, to compare with \<open>PackUserOperation\<close>: the eight
  slots in order, the two paired slots written as the two left-padded halves one after
  the other.
\<close>

definition packed_layout :: "(byte list \<Rightarrow> hash) \<Rightarrow> UserOperation \<Rightarrow> byte list" where
  "packed_layout keccak op =
     LeftPadBytes (word_bytes 20 (Sender op)) 32
     @ U256Bytes (Nonce op)
     @ word_bytes 32 (keccak [])
     @ word_bytes 32 (keccak (CallData op))
     @ (LeftPadBytes (Bytes (VerificationGasLimit op)) 16
        @ LeftPadBytes (Bytes (CallGasLimit op)) 16)
     @ U256Bytes (PreVerificationGas op)
     @ (LeftPadBytes (Bytes (MaxPriorityFeePerGas op)) 16
        @ LeftPadBytes (Bytes (MaxFeePerGas op)) 16)
     @ word_bytes 32 (keccak [])"

section \<open>The entry point gateway\<close>

text \<open>
  The parsed ABI (\<^verbatim>\<open>abi.ABI\<close>): the constructor's inputs and the methods by name, each with
  its inputs and its four-byte selector.
\<close>

record Method =
  Inputs :: "abi_type list"
  ID :: "byte list"

record ABI =
  Constructor :: "abi_type list"
  Methods :: "string \<Rightarrow> Method option"

definition ABI_Pack :: "ABI \<Rightarrow> string \<Rightarrow> go_value list \<Rightarrow> error + byte list" where
  "ABI_Pack abi name args =
     (if name = [] then Arguments_Pack (Constructor abi) args
      else (case Methods abi name of
              None \<Rightarrow> Inl (MethodNotFound name)
            | Some method \<Rightarrow>
                (case Arguments_Pack (Inputs method) args of
                   Inl err \<Rightarrow> Inl err
                 | Inr arguments \<Rightarrow> Inr (ID method @ arguments))))"

definition EntryPointVersion07 :: string where
  "EntryPointVersion07 = ''0.7''"

definition entryPointAddress07 :: address where
  "entryPointAddress07 = 0x0000000071727De22E5E9d8BAf0edAc6f37da032"

text \<open>
  What \<^verbatim>\<open>abi.JSON\<close> returns for the constant \<^verbatim>\<open>entrypointAbi07\<close>: the one method
  \<^verbatim>\<open>getNonce(address sender, uint192 key)\<close>, whose selector is the first four bytes of the
  digest of its signature. Parsing this constant does not fail.
\<close>

definition string_bytes :: "string \<Rightarrow> byte list" where
  "string_bytes s = map (\<lambda>c. of_nat (of_char c)) s"

definition entrypointAbi07 :: "(byte list \<Rightarrow> hash) \<Rightarrow> ABI" where
  "entrypointAbi07 keccak =
     \<lparr>Constructor = [],
      Methods = (\<lambda>name.
        if name = ''getNonce''
        then Some \<lparr>Inputs = [AddressTy, UintTy 192],
                   ID = take 4 (word_bytes 32 (keccak (string_bytes ''getNonce(address,uint192)'')))\<rparr>
        else None)\<rparr>"

text \<open>
  The RPC side. A connection is a handle (a number); the network state holds how the
  node answers a call (given the calls issued before), the calls issued so far, which
  URLs refuse a dial, how many connections were dialed and the \<^verbatim>\<open>Close\<close> calls in order.
\<close>

record call_msg =
  To :: address
  Data :: "byte list"

type_synonym rpc_call = "nat \<times> string \<times> call_msg"

record network =
  respond :: "rpc_call list \<Rightarrow> rpc_call \<Rightarrow> error + byte list"
  issued :: "rpc_call list"
  refused :: "string \<Rightarrow> error option"
  dialed :: nat
  closed :: "nat list"

text \<open>
  \<^verbatim>\<open>CallContext(ctx, &hex, method, msg)\<close> with a \<^verbatim>\<open>hexutil.Bytes\<close> result: the call either fails
  (transport failure, an error reply, or a reply that does not unmarshal into bytes) or
  yields the bytes.
\<close>

definition CallContext ::
  "nat \<Rightarrow> string \<Rightarrow> call_msg \<Rightarrow> network \<Rightarrow> (error + byte list) \<times> network" where
  "CallContext c method msg w =
     (respond w (issued w) (c, method, msg), w\<lparr>issued := issued w @ [(c, method, msg)]\<rparr>)"

definition Dial :: "string \<Rightarrow> network \<Rightarrow> (error + nat) \<times> network" where
  "Dial rawurl w =
     (case refused w rawurl of
        Some err \<Rightarrow> (Inl err, w)
      | None \<Rightarrow> (Inr (dialed w), w\<lparr>dialed := Suc (dialed w)\<rparr>))"

definition Close :: "nat \<Rightarrow> network \<Rightarrow> network" where
  "Close c w = w\<lparr>closed := closed w @ [c]\<rparr>"

record EntrypointClient07 =
  Client :: nat
  Address :: address
  Abi :: ABI
  ChainID :: int

definition NewEntrypoint07 ::
  "(byte list \<Rightarrow> hash) \<Rightarrow> nat \<Rightarrow> int \<Rightarrow> error + EntrypointClient07" where
  "NewEntrypoint07 keccak rpcClient chainID =
     Inr \<lparr>Client = rpcClient, Address = entryPointAddress07,
          Abi = entrypointAbi07 keccak, ChainID = chainID\<rparr>"

definition GetAddress :: "EntrypointClient07 \<Rightarrow> address" where
  "GetAddress e = Address e"

definition computeKey :: "address \<Rightarrow> int" where
  "computeKey account = 0"

definition GetNonce ::
  "EntrypointClient07 \<Rightarrow> address \<Rightarrow> network \<Rightarrow> (error + int) \<times> network" where
  "GetNonce e account w =
     (let key = computeKey account in
      case ABI_Pack (Abi e) ''getNonce'' [GoArray (word_bytes 20 account), GoBigInt key] of
        Inl err \<Rightarrow> (Inl (Wrap err ''failed to pack getNonce call data''), w)
      | Inr callData \<Rightarrow>
          (let msg = \<lparr>To = Address e, Data = callData\<rparr> in
           case CallContext (Client e) ''eth_call'' msg w of
             (Inl err, w') \<Rightarrow> (Inl (Wrap err ''failed to call getNonce eth_call''), w')
           | (Inr hex, w') \<Rightarrow>
               (case hexutil_Decode (hexutil_Encode hex) of
                  Inl err \<Rightarrow> (Inl (Wrap err ''failed to decode getNonce hex''), w')
                | Inr decoded \<Rightarrow> (Inr (SetBytes decoded), w'))))"

definition GetUserOperationHash ::
  "(byte list \<Rightarrow> hash) \<Rightarrow> EntrypointClient07 \<Rightarrow> UserOperation \<Rightarrow> error + hash" where
  "GetUserOperationHash keccak e op =
     (case PackUserOperation keccak op of
        Inl err \<Rightarrow> Inl (Wrap err ''failed to pack user operation'')
      | Inr packedOp \<Rightarrow>
          (case Arguments_Pack [bytes32, address, uint256]
                  [GoArray (word_bytes 32 (keccak packedOp)),
                   GoArray (word_bytes 20 (Address e)),
                   GoBigInt (ChainID e)] of
             Inl err \<Rightarrow> Inl (Wrap err ''failed to pack user operation for hashing'')
           | Inr packed \<Rightarrow> Inr (keccak packed)))"

section \<open>The client\<close>

text \<open>
  Modelled from the spec: the paymaster client, the bundler client, the account signer
  and the response types are declared in files that are not among the sources. They are
  taken as they are used: each collaborator is a record of the functions the client
  calls, and a response holds the fields the client reads. \<^verbatim>\<open>SponsorUserOperation\<close>
  receives a pointer to the operation under construction, so it also returns the
  operation as it left it. A receipt is opaque. \<^verbatim>\<open>GetUserOperationReceipt\<close> returns Go's
  pair of a receipt (or nil) and an error (or nil).
\<close>

record GasPrice =
  price_MaxFeePerGas :: int
  price_MaxPriorityFeePerGas :: int

record GasPriceResponse =
  Standard :: GasPrice

record SponsorUserOperationResponse =
  resp_Paymaster :: "byte list"
  resp_PaymasterData :: "byte list"
  resp_PreVerificationGas :: int
  resp_VerificationGasLimit :: int
  resp_CallGasLimit :: int

datatype UserOperationReceipt = ReceiptOf "byte list"

record BundlerClient =
  GetUserOperationGasPrice :: "error + GasPriceResponse"
  bundler_SendUserOperation :: "UserOperation \<Rightarrow> error + byte list"
  bundler_GetUserOperationReceipt ::
    "byte list \<Rightarrow> int \<Rightarrow> int \<Rightarrow> UserOperationReceipt option \<times> error option"

record PaymasterClient =
  SponsorUserOperation ::
    "UserOperation \<Rightarrow> (error + SponsorUserOperationResponse) \<times> UserOperation"

record AccountSigner =
  signer_GetAddress :: address
  SignUserOperationHash :: "hash \<Rightarrow> error + byte list"

type_synonym PrivateKey = int

record ClientConfig =
  AccountAddress :: address
  AccountPK :: "PrivateKey option"
  EntryPointVersion :: string
  RpcURL :: "string option"
  PaymasterURL :: "string option"
  BundlerURL :: "string option"
  config_ChainID :: "int option"
  ReceiptPollingDelaySeconds :: int
  config_ReceiptPollingRetries :: int

record UserOperationResult =
  UserOperationHash :: "byte list"
  Receipt :: "UserOperationReceipt option"

record Client =
  Signer :: AccountSigner
  EntryPoint :: EntrypointClient07
  PaymasterClient :: PaymasterClient
  BundlerClient :: BundlerClient
  client_ChainID :: int
  RpcClients_Network :: nat
  RpcClients_Paymaster :: nat
  RpcClients_Bundler :: nat
  ReceiptPollingDelay :: int
  ReceiptPollingRetries :: int

text \<open>
  The constructors of the collaborators, which \<^verbatim>\<open>NewClient\<close> calls once the three
  connections are dialed: parameters of the model.
\<close>

record constructors =
  NewPaymasterClient :: "nat \<Rightarrow> EntrypointClient07 \<Rightarrow> int \<Rightarrow> error + PaymasterClient"
  NewBundlerClient :: "nat \<Rightarrow> EntrypointClient07 \<Rightarrow> int \<Rightarrow> error + BundlerClient"
  NewSmartAccountPrivateKeySigner :: "nat \<Rightarrow> address \<Rightarrow> PrivateKey \<Rightarrow> error + AccountSigner"

text \<open>
  \<^verbatim>\<open>NewClient\<close>. The configuration check does not look at \<^verbatim>\<open>RpcURL\<close>; calling \<^verbatim>\<open>String()\<close> on
  a nil URL panics. Each failure branch closes the connections in the order the source
  writes the \<^verbatim>\<open>Close\<close> calls.
\<close>

definition NewClient ::
  "(byte list \<Rightarrow> hash) \<Rightarrow> constructors \<Rightarrow> ClientConfig \<Rightarrow> network \<Rightarrow> (error + Client) \<times> network" where
  "NewClient keccak env config w =
     (if AccountPK config = None \<or> PaymasterURL config = None \<or> BundlerURL config = None
         \<or> EntryPointVersion config \<noteq> EntryPointVersion07 \<or> config_ChainID config = None
      then (Inl (New ''accountPK, paymasterURL, bundlerURL, entryPointVersion and chainID are required''), w)
      else
     (case RpcURL config of
        None \<Rightarrow> (Inl NilPointerPanic, w)
      | Some rpcURL \<Rightarrow>
     (case Dial rpcURL w of
        (Inl err, w1) \<Rightarrow> (Inl (Wrap err ''failed to connect to RPC''), w1)
      | (Inr networkRpc, w1) \<Rightarrow>
     (case Dial (the (PaymasterURL config)) w1 of
        (Inl err, w2) \<Rightarrow>
          (Inl (Wrap err ''failed to connect to Paymaster''), Close networkRpc w2)
      | (Inr paymasterRpc, w2) \<Rightarrow>
     (case Dial (the (BundlerURL config)) w2 of
        (Inl err, w3) \<Rightarrow>
          (Inl (Wrap err ''failed to connect to Bundler''),
           Close networkRpc (Close paymasterRpc w3))
      | (Inr bundleRpc, w3) \<Rightarrow>
     (case NewEntrypoint07 keccak networkRpc (the (config_ChainID config)) of
        Inl err \<Rightarrow>
          (Inl (Wrap err ''failed to initialize entrypoint''),
           Close networkRpc (Close paymasterRpc (Close networkRpc w3)))
      | Inr entrypoint \<Rightarrow>
     (case NewPaymasterClient env paymasterRpc entrypoint (the (config_ChainID config)) of
        Inl err \<Rightarrow>
          (Inl (Wrap err ''failed to initialize paymasterClient''),
           Close networkRpc (Close paymasterRpc (Close networkRpc w3)))
      | Inr paymasterClient \<Rightarrow>
     (case NewBundlerClient env bundleRpc entrypoint (the (config_ChainID config)) of
        Inl err \<Rightarrow>
          (Inl (Wrap err ''failed to initialize bundlerClient''),
           Close networkRpc (Close paymasterRpc (Close networkRpc w3)))
      | Inr bundlerClient \<Rightarrow>
     (case NewSmartAccountPrivateKeySigner env networkRpc (AccountAddress config)
             (the (AccountPK config)) of
        Inl err \<Rightarrow>
          (Inl (Wrap err ''failed to initialize signer''),
           Close networkRpc (Close paymasterRpc (Close networkRpc w3)))
      | Inr signer \<Rightarrow>
          (let pollingDelaySeconds =
                 (if ReceiptPollingDelaySeconds config > 0
                  then ReceiptPollingDelaySeconds config else 10);
               pollingRetries =
                 (if config_ReceiptPollingRetries config > 0
                  then config_ReceiptPollingRetries config else 24)
           in (Inr \<lparr>Signer = signer,
                    EntryPoint = entrypoint,
                    PaymasterClient = paymasterClient,
                    BundlerClient = bundlerClient,
                    client_ChainID = the (config_ChainID config),
                    RpcClients_Network = networkRpc,
                    RpcClients_Paymaster = paymasterRpc,
                    RpcClients_Bundler = bundleRpc,
                    ReceiptPollingDelay = pollingDelaySeconds,
                    ReceiptPollingRetries = pollingRetries\<rparr>, w3)))))))))))"

definition Client_Close :: "Client \<Rightarrow> network \<Rightarrow> network" where
  "Client_Close c w =
     Close (RpcClients_Bundler c) (Close (RpcClients_Paymaster c) (Close (RpcClients_Network c) w))"

definition GetUserOperationAndHashToSign ::
  "(byte list \<Rightarrow> hash) \<Rightarrow> Client \<Rightarrow> address \<Rightarrow> byte list \<Rightarrow> network
     \<Rightarrow> (error + UserOperation \<times> hash) \<times> network" where
  "GetUserOperationAndHashToSign keccak c sender callData w =
     (case GetNonce (EntryPoint c) sender w of
        (Inl err, w1) \<Rightarrow> (Inl err, w1)
      | (Inr nonce, w1) \<Rightarrow>
          (let op1 = zero_UserOperation\<lparr>Sender := sender, Nonce := nonce, CallData := callData\<rparr>
           in case GetUserOperationGasPrice (BundlerClient c) of
                Inl err \<Rightarrow> (Inl err, w1)
              | Inr gasPrice \<Rightarrow>
                  (let op2 = op1\<lparr>MaxFeePerGas := price_MaxFeePerGas (Standard gasPrice),
                                 MaxPriorityFeePerGas :=
                                   price_MaxPriorityFeePerGas (Standard gasPrice)\<rparr>
                   in case SponsorUserOperation (PaymasterClient c) op2 of
                        (Inl err, op3) \<Rightarrow> (Inl err, w1)
                      | (Inr sponsorResponse, op3) \<Rightarrow>
                          (let op4 = op3\<lparr>Paymaster := resp_Paymaster sponsorResponse,
                                         PaymasterData := resp_PaymasterData sponsorResponse,
                                         PreVerificationGas :=
                                           resp_PreVerificationGas sponsorResponse,
                                         VerificationGasLimit :=
                                           resp_VerificationGasLimit sponsorResponse,
                                         CallGasLimit := resp_CallGasLimit sponsorResponse\<rparr>
                           in case GetUserOperationHash keccak (EntryPoint c) op4 of
                                Inl err \<Rightarrow> (Inl err, w1)
                              | Inr opHash \<Rightarrow> (Inr (op4, opHash), w1)))))"

definition SendSignedUserOperation ::
  "Client \<Rightarrow> UserOperation \<Rightarrow> bool \<Rightarrow> error + UserOperationResult" where
  "SendSignedUserOperation c signedOp waitForReceipt =
     (case bundler_SendUserOperation (BundlerClient c) signedOp of
        Inl err \<Rightarrow> Inl err
      | Inr response \<Rightarrow>
          (let receipt =
                 (if waitForReceipt
                  then fst (bundler_GetUserOperationReceipt (BundlerClient c) response
                              (ReceiptPollingDelay c) (ReceiptPollingRetries c))
                  else None)
           in Inr \<lparr>UserOperationHash = response, Receipt = receipt\<rparr>))"

definition SendUserOperation ::
  "(byte list \<Rightarrow> hash) \<Rightarrow> Client \<Rightarrow> byte list \<Rightarrow> bool \<Rightarrow> network
     \<Rightarrow> (error + UserOperationResult) \<times> network" where
  "SendUserOperation keccak c callData waitForReceipt w =
     (case GetUserOperationAndHashToSign keccak c (signer_GetAddress (Signer c)) callData w of
        (Inl err, w1) \<Rightarrow> (Inl err, w1)
      | (Inr (op, opHash), w1) \<Rightarrow>
          (case SignUserOperationHash (Signer c) opHash of
             Inl err \<Rightarrow> (Inl err, w1)
           | Inr signature \<Rightarrow>
               (SendSignedUserOperation c (op\<lparr>Signature := signature\<rparr>) waitForReceipt, w1)))"

definition Client_GetUserOperationReceipt ::
  "Client \<Rightarrow> UserOperationResult \<Rightarrow> UserOperationReceipt option \<times> error option" where
  "Client_GetUserOperationReceipt c result =
     bundler_GetUserOperationReceipt (BundlerClient c) (UserOperationHash result)
       (ReceiptPollingDelay c) (ReceiptPollingRetries c)"

text \<open>The neighbour of a number that differs from it in the lowest bit only.\<close>

definition flip_low :: "nat \<Rightarrow> nat" where
  "flip_low n = (if even n then n + 1 else n - 1)"

text \<open>
  A stand-in for the digest, used only where a theorem is evaluated at a concrete input;
  every theorem is stated for an arbitrary digest function.
\<close>

definition sample_digest :: "byte list \<Rightarrow> hash" where
  "sample_digest bs = foldl (\<lambda>h b. 3 * h + ucast b) 1 bs"

text \<open>
  Concrete inputs at which the theorems are evaluated: a node that answers every call
  with the bytes \<open>[1, 0]\<close> and one that fails every call, collaborators with fixed
  answers (the paymaster leaves other gas values behind in the operation it was handed,
  and the bundler finds no receipt), a valid configuration, and the client built from
  them.
\<close>

definition sample_network :: network where
  "sample_network =
     \<lparr>respond = (\<lambda>history call. Inr [1, 0]), issued = [], refused = (\<lambda>rawurl. None),
      dialed = 0, closed = []\<rparr>"

definition failing_network :: network where
  "failing_network =
     \<lparr>respond = (\<lambda>history call. Inl (External ''connection reset'')), issued = [],
      refused = (\<lambda>rawurl. None), dialed = 0, closed = []\<rparr>"

definition sample_bundler :: BundlerClient where
  "sample_bundler =
     \<lparr>GetUserOperationGasPrice =
        Inr \<lparr>Standard = \<lparr>price_MaxFeePerGas = 1000, price_MaxPriorityFeePerGas = 100\<rparr>\<rparr>,
      bundler_SendUserOperation = (\<lambda>signedOp. Inr [171, 205]),
      bundler_GetUserOperationReceipt =
        (\<lambda>opHash delay retries. (None, Some (External ''receipt not found'')))\<rparr>"

definition sample_paymaster :: PaymasterClient where
  "sample_paymaster =
     \<lparr>SponsorUserOperation = (\<lambda>op.
        (Inr \<lparr>resp_Paymaster = [], resp_PaymasterData = [], resp_PreVerificationGas = 21000,
              resp_VerificationGasLimit = 50000, resp_CallGasLimit = 30000\<rparr>,
         op\<lparr>CallGasLimit := 7, VerificationGasLimit := 8, PreVerificationGas := 9\<rparr>))\<rparr>"

definition sample_signer :: AccountSigner where
  "sample_signer =
     \<lparr>signer_GetAddress = 0xAAAAAAAAAAAAAAAAAAAAAAAAAAAAAAAAAAAAAAAA,
      SignUserOperationHash = (\<lambda>opHash. Inr [1])\<rparr>"

definition sample_constructors :: constructors where
  "sample_constructors =
     \<lparr>NewPaymasterClient = (\<lambda>rpcClient entrypoint chainID. Inr sample_paymaster),
      NewBundlerClient = (\<lambda>rpcClient entrypoint chainID. Inr sample_bundler),
      NewSmartAccountPrivateKeySigner = (\<lambda>rpcClient account pk. Inr sample_signer)\<rparr>"

definition sample_config :: ClientConfig where
  "sample_config =
     \<lparr>AccountAddress = 0xAAAAAAAAAAAAAAAAAAAAAAAAAAAAAAAAAAAAAAAA,
      AccountPK = Some 1,
      EntryPointVersion = ''0.7'',
      RpcURL = Some ''http://node'',
      PaymasterURL = Some ''http://paymaster'',
      BundlerURL = Some ''http://bundler'',
      config_ChainID = Some 1,
      ReceiptPollingDelaySeconds = 0,
      config_ReceiptPollingRetries = 0\<rparr>"

definition sample_client :: Client where
  "sample_client =
     \<lparr>Signer = sample_signer,
      EntryPoint = \<lparr>Client = 0, Address = entryPointAddress07,
                     Abi = entrypointAbi07 sample_digest, ChainID = 1\<rparr>,
      PaymasterClient = sample_paymaster,
      BundlerClient = sample_bundler,
      client_ChainID = 1,
      RpcClients_Network = 0,
      RpcClients_Paymaster = 1,
      RpcClients_Bundler = 2,
      ReceiptPollingDelay = 10,
      ReceiptPollingRetries = 24\<rparr>"

section \<open>Facts about the byte primitives\<close>

lemma length_word_bytes [simp]: "length (word_bytes k w) = k"
  by (simp add: word_bytes_def)

lemma length_LeftPadBytes [simp]: "length (LeftPadBytes bs l) = max l (length bs)"
  by (simp add: LeftPadBytes_def)

lemma length_RightPadBytes [simp]: "length (RightPadBytes bs l) = max l (length bs)"
  by (simp add: RightPadBytes_def)

lemma length_toArray32 [simp]: "length (toArray32 b) = 32"
  by (simp add: toArray32_def)

lemma length_nat_bytes_le: "length (nat_bytes n) \<le> k \<longleftrightarrow> n < 256 ^ k"
proof (induction n arbitrary: k rule: nat_bytes.induct)
  case (1 n)
  show ?case
  proof (cases "n = 0")
    case True
    then show ?thesis by (simp add: nat_bytes.simps)
  next
    case False
    show ?thesis
    proof (cases k)
      case 0
      with False show ?thesis by (simp add: nat_bytes.simps [of n])
    next
      case (Suc j)
      have "length (nat_bytes n) = Suc (length (nat_bytes (n div 256)))"
        using False by (simp add: nat_bytes.simps [of n])
      moreover have "length (nat_bytes (n div 256)) \<le> j \<longleftrightarrow> n div 256 < 256 ^ j"
        using "1.IH" [OF False] .
      moreover have "n div 256 < 256 ^ j \<longleftrightarrow> n < 256 ^ Suc j"
        by (simp add: less_mult_imp_div_less div_less_iff_less_mult mult.commute)
      ultimately show ?thesis using Suc by simp
    qed
  qed
qed

lemma bytes_nat_append: "bytes_nat (xs @ [b]) = 256 * bytes_nat xs + unat b"
  by (simp add: bytes_nat_def)

lemma bytes_nat_nat_bytes: "bytes_nat (nat_bytes n) = n"
proof (induction n rule: nat_bytes.induct)
  case (1 n)
  show ?case
  proof (cases "n = 0")
    case True
    then show ?thesis by (simp add: nat_bytes.simps bytes_nat_def)
  next
    case False
    have "unat (of_nat (n mod 256) :: byte) = n mod 256"
      by (simp add: unat_of_nat)
    then show ?thesis
      using False "1.IH" [OF False] by (simp add: nat_bytes.simps [of n] bytes_nat_append)
  qed
qed

lemma bytes_nat_zeros: "bytes_nat (replicate k 0 @ bs) = bytes_nat bs"
proof -
  have "foldl (\<lambda>acc b. 256 * acc + unat b) 0 (replicate k (0::byte)) = 0"
    by (induction k) simp_all
  then show ?thesis by (simp add: bytes_nat_def)
qed

lemma bytes_nat_LeftPadBytes: "bytes_nat (LeftPadBytes bs l) = bytes_nat bs"
  by (simp add: LeftPadBytes_def bytes_nat_zeros)

lemma FromHex_0x: "FromHex ''0x'' = []"
  by (simp add: FromHex_def has0xPrefix_def)

lemma length_Bytes_le: "length (Bytes x) \<le> k \<longleftrightarrow> \<bar>x\<bar> < 256 ^ k"
proof -
  have "nat \<bar>x\<bar> < 256 ^ k \<longleftrightarrow> \<bar>x\<bar> < 256 ^ k"
    by (metis nat_less_iff abs_ge_zero of_nat_numeral of_nat_power)
  then show ?thesis by (simp add: Bytes_def length_nat_bytes_le)
qed

lemma length_U256Bytes [simp]: "length (U256Bytes n) = 32"
proof -
  have "\<bar>n mod 2 ^ 256\<bar> < (256::int) ^ 32"
    by simp
  then have "length (Bytes (n mod 2 ^ 256)) \<le> 32"
    by (simp only: length_Bytes_le)
  then show ?thesis by (simp add: U256Bytes_def)
qed

lemma toArray32_createPackedBuffer:
  "toArray32 (createPackedBuffer a b) = take 32 (LeftPadBytes a 16 @ LeftPadBytes b 16)"
  by (simp add: toArray32_def createPackedBuffer_def)

lemma toArray32_fits:
  assumes "length a \<le> 16" "length b \<le> 16"
  shows "toArray32 (createPackedBuffer a b) = LeftPadBytes a 16 @ LeftPadBytes b 16"
  using assms by (simp add: toArray32_createPackedBuffer max_def)

lemma PackUserOperation_bytes:
  "PackUserOperation keccak op =
     Inr (LeftPadBytes (word_bytes 20 (Sender op)) 32
          @ U256Bytes (Nonce op)
          @ word_bytes 32 (keccak [])
          @ word_bytes 32 (keccak (CallData op))
          @ toArray32 (createPackedBuffer (Bytes (VerificationGasLimit op)) (Bytes (CallGasLimit op)))
          @ U256Bytes (PreVerificationGas op)
          @ toArray32 (createPackedBuffer (Bytes (MaxPriorityFeePerGas op)) (Bytes (MaxFeePerGas op)))
          @ word_bytes 32 (keccak []))"
  by (simp add: PackUserOperation_def Arguments_Pack_def type_pack_def address_def uint256_def
      bytes32_def FromHex_0x RightPadBytes_def Let_def)

lemma GetUserOperationHash_bytes:
  "GetUserOperationHash keccak e op =
     (case PackUserOperation keccak op of
        Inl err \<Rightarrow> Inl (Wrap err ''failed to pack user operation'')
      | Inr packedOp \<Rightarrow>
          Inr (keccak (word_bytes 32 (keccak packedOp)
                       @ LeftPadBytes (word_bytes 20 (Address e)) 32
                       @ U256Bytes (ChainID e))))"
  by (simp add: GetUserOperationHash_def Arguments_Pack_def type_pack_def address_def uint256_def
      bytes32_def RightPadBytes_def Let_def split: sum.splits)

lemma length_toArray32_slot:
  "length (LeftPadBytes (word_bytes 20 a) 32) = 32"
  by simp

lemma length_PackUserOperation:
  "PackUserOperation keccak op = Inr packed \<Longrightarrow> length packed = 256"
  by (simp add: PackUserOperation_bytes) auto

lemma PackUserOperation_layout:
  assumes "\<bar>VerificationGasLimit op\<bar> < 2 ^ 128" and "\<bar>CallGasLimit op\<bar> < 2 ^ 128"
    and "\<bar>MaxPriorityFeePerGas op\<bar> < 2 ^ 128" and "\<bar>MaxFeePerGas op\<bar> < 2 ^ 128"
  shows "PackUserOperation keccak op = Inr (packed_layout keccak op)"
proof -
  have len: "length (Bytes (VerificationGasLimit op)) \<le> 16" "length (Bytes (CallGasLimit op)) \<le> 16"
    "length (Bytes (MaxPriorityFeePerGas op)) \<le> 16" "length (Bytes (MaxFeePerGas op)) \<le> 16"
    using assms by (simp_all add: length_Bytes_le)
  show ?thesis
    by (simp add: PackUserOperation_bytes packed_layout_def toArray32_fits len)
qed


lemma nat_bytes_pos: "0 < n \<Longrightarrow> nat_bytes n = nat_bytes (n div 256) @ [of_nat (n mod 256)]"
  by (simp add: nat_bytes.simps [of n])

lemma butlast_LeftPadBytes_nat_bytes:
  "butlast (LeftPadBytes (nat_bytes n) (Suc l)) = LeftPadBytes (nat_bytes (n div 256)) l"
proof (cases "n = 0")
  case True
  then show ?thesis by (simp add: nat_bytes.simps LeftPadBytes_def butlast_append flip: replicate_append_same)
next
  case False
  then show ?thesis
    by (auto simp add: nat_bytes_pos LeftPadBytes_def butlast_append Suc_diff_le)
qed

lemma take_append_butlast:
  assumes "n < length a + length b"
  shows "take n (a @ b) = take n (a @ butlast b)"
proof (cases "b = []")
  case True
  then show ?thesis by simp
next
  case False
  then have "a @ b = (a @ butlast b) @ [last b]" by simp
  moreover have "n \<le> length (a @ butlast b)" using assms False by simp
  ultimately show ?thesis by (simp del: append_assoc butlast_snoc append_butlast_last_id)
qed

lemma flip_low_div: "flip_low n div 256 = n div 256"
proof -
  have half: "flip_low n div 2 = n div 2"
    by (cases "even n") (auto simp add: flip_low_def elim!: evenE oddE)
  have "flip_low n div 256 = (flip_low n div 2) div 128"
    by (simp add: div_mult2_eq [symmetric])
  also have "\<dots> = (n div 2) div 128"
    by (simp only: half)
  also have "\<dots> = n div 256"
    by (simp add: div_mult2_eq [symmetric])
  finally show ?thesis .
qed

lemma flip_low_neq: "int (flip_low (nat \<bar>c\<bar>)) \<noteq> c"
proof -
  have "int (nat \<bar>c\<bar> + 1) \<noteq> c" by linarith
  moreover have "odd (nat \<bar>c\<bar>) \<Longrightarrow> int (nat \<bar>c\<bar> - 1) \<noteq> c"
  proof -
    assume "odd (nat \<bar>c\<bar>)"
    then have "0 < nat \<bar>c\<bar>" by (cases "nat \<bar>c\<bar>") auto
    then show ?thesis by linarith
  qed
  ultimately show ?thesis by (simp add: flip_low_def)
qed

lemma Bytes_int: "Bytes (int n) = nat_bytes n"
  by (simp add: Bytes_def)

lemma oversize_length:
  assumes "2 ^ 128 \<le> \<bar>v\<bar>"
  shows "16 < length (Bytes v)"
proof -
  have "\<not> \<bar>v\<bar> < 256 ^ 16" using assms by simp
  then show ?thesis using length_Bytes_le [of v 16] by simp
qed

lemma slot_ignores_low_byte:
  assumes "2 ^ 128 \<le> \<bar>v\<bar> \<or> 2 ^ 128 \<le> \<bar>c\<bar>"
  shows "toArray32 (createPackedBuffer (Bytes v) (Bytes c))
         = take 32 (LeftPadBytes (Bytes v) 16 @ LeftPadBytes (nat_bytes (nat \<bar>c\<bar> div 256)) 15)"
proof -
  have "32 < length (LeftPadBytes (Bytes v) 16) + length (LeftPadBytes (Bytes c) 16)"
    using assms oversize_length [of v] oversize_length [of c] by auto
  then have "take 32 (LeftPadBytes (Bytes v) 16 @ LeftPadBytes (Bytes c) 16)
      = take 32 (LeftPadBytes (Bytes v) 16 @ butlast (LeftPadBytes (Bytes c) 16))"
    by (rule take_append_butlast)
  also have "butlast (LeftPadBytes (Bytes c) 16) = LeftPadBytes (nat_bytes (nat \<bar>c\<bar> div 256)) 15"
    using butlast_LeftPadBytes_nat_bytes [of "nat \<bar>c\<bar>" 15] by (simp add: Bytes_def)
  finally show ?thesis by (simp add: toArray32_createPackedBuffer)
qed

lemma word_bytes_inj:
  fixes h h' :: "'a::len word"
  assumes eq: "word_bytes k h = word_bytes k h'" and len: "LENGTH('a) \<le> 8 * k"
  shows "h = h'"
proof (rule bit_word_eqI)
  fix n assume n: "n < LENGTH('a)"
  define i where "i = k - Suc (n div 8)"
  have nk: "n div 8 < k" using n len by (simp add: less_mult_imp_div_less mult.commute)
  then have i: "i < k" and ki: "k - Suc i = n div 8" by (auto simp add: i_def)
  from eq have "word_bytes k h ! i = word_bytes k h' ! i" by simp
  then have "(ucast (drop_bit (8 * (n div 8)) h) :: byte) = ucast (drop_bit (8 * (n div 8)) h')"
    using i ki by (simp add: word_bytes_def)
  then have "bit (ucast (drop_bit (8 * (n div 8)) h) :: byte) (n mod 8)
           = bit (ucast (drop_bit (8 * (n div 8)) h') :: byte) (n mod 8)"
    by simp
  then show "bit h n = bit h' n"
    by (simp add: bit_ucast_iff bit_drop_bit_eq)
qed

lemma pair_slot_inj:
  assumes a: "0 \<le> a" "a < 2 ^ 128" and b: "0 \<le> b" "b < 2 ^ 128"
    and eq: "toArray32 (createPackedBuffer (Bytes a) (Bytes b))
           = toArray32 (createPackedBuffer (Bytes b) (Bytes a))"
  shows "a = b"
proof -
  have "\<bar>a\<bar> < 256 ^ 16" "\<bar>b\<bar> < 256 ^ 16"
    using a b by simp_all
  then have la: "length (Bytes a) \<le> 16" and lb: "length (Bytes b) \<le> 16"
    by (simp_all only: length_Bytes_le)
  have "LeftPadBytes (Bytes a) 16 @ LeftPadBytes (Bytes b) 16
        = LeftPadBytes (Bytes b) 16 @ LeftPadBytes (Bytes a) 16"
    using eq by (simp only: toArray32_fits [OF la lb] toArray32_fits [OF lb la])
  moreover have "length (LeftPadBytes (Bytes a) 16) = length (LeftPadBytes (Bytes b) 16)"
    using la lb by (simp add: max_def)
  ultimately have "LeftPadBytes (Bytes a) 16 = LeftPadBytes (Bytes b) 16"
    using append_eq_append_conv [of "LeftPadBytes (Bytes a) 16" "LeftPadBytes (Bytes b) 16"
        "LeftPadBytes (Bytes b) 16" "LeftPadBytes (Bytes a) 16"]
    by blast
  then have "bytes_nat (LeftPadBytes (Bytes a) 16) = bytes_nat (LeftPadBytes (Bytes b) 16)"
    by (rule arg_cong)
  then have "nat \<bar>a\<bar> = nat \<bar>b\<bar>"
    by (simp only: bytes_nat_LeftPadBytes Bytes_def bytes_nat_nat_bytes)
  with a(1) b(1) show ?thesis by linarith
qed

lemma PackUserOperation_slot:
  assumes "PackUserOperation keccak op1 = PackUserOperation keccak op2"
  shows "toArray32 (createPackedBuffer (Bytes (VerificationGasLimit op1)) (Bytes (CallGasLimit op1)))
       = toArray32 (createPackedBuffer (Bytes (VerificationGasLimit op2)) (Bytes (CallGasLimit op2)))"
  using assms by (simp add: PackUserOperation_bytes)

lemma Bytes_pow256:
  "Bytes (2 ^ 256) = [1, 0, 0, 0, 0, 0, 0, 0, 0, 0, 0, 0, 0, 0, 0, 0, 0, 0, 0, 0, 0, 0, 0, 0, 0, 0, 0, 0, 0, 0, 0, 0, 0]"
  by (simp add: Bytes_def nat_bytes.simps)

lemma Bytes_pow256_1:
  "Bytes (2 ^ 256 + 1) = [1, 0, 0, 0, 0, 0, 0, 0, 0, 0, 0, 0, 0, 0, 0, 0, 0, 0, 0, 0, 0, 0, 0, 0, 0, 0, 0, 0, 0, 0, 0, 0, 1]"
  by (simp add: Bytes_def nat_bytes.simps)

lemma oversize_swap_slot:
  "toArray32 (createPackedBuffer (Bytes (2 ^ 256)) (Bytes (2 ^ 256 + 1)))
   = toArray32 (createPackedBuffer (Bytes (2 ^ 256 + 1)) (Bytes (2 ^ 256)))"
  by (simp only: Bytes_pow256 Bytes_pow256_1)
     (simp add: toArray32_def createPackedBuffer_def LeftPadBytes_def)

lemma PackUserOperation_swap:
  assumes "toArray32 (createPackedBuffer (Bytes a) (Bytes b))
           = toArray32 (createPackedBuffer (Bytes b) (Bytes a))"
  shows "PackUserOperation keccak (op\<lparr>VerificationGasLimit := a, CallGasLimit := b\<rparr>)
       = PackUserOperation keccak (op\<lparr>VerificationGasLimit := b, CallGasLimit := a\<rparr>)"
  using assms by (simp add: PackUserOperation_bytes)

lemma foldl_replicate_zero:
  "foldl (\<lambda>h b. 3 * h + ucast b) (h :: hash) (replicate n (0 :: byte)) = 3 ^ n * h"
  by (induction n arbitrary: h) (simp_all add: mult.assoc mult.left_commute)

lemma sample_digest_packed_1_2:
  "sample_digest (packed_layout sample_digest
      (zero_UserOperation\<lparr>VerificationGasLimit := 1, CallGasLimit := 2\<rparr>))
   = 112165019040778588191518006088897237616671668545939879823816314964246925529159"
  by (simp add: sample_digest_def packed_layout_def zero_UserOperation_def LeftPadBytes_def
      U256Bytes_def word_bytes_def Bytes_def nat_bytes.simps foldl_replicate_zero upt_rec)

lemma sample_digest_packed_2_1:
  "sample_digest (packed_layout sample_digest
      (zero_UserOperation\<lparr>VerificationGasLimit := 2, CallGasLimit := 1\<rparr>))
   = 112165019040778588191518279981635870272064309951520668766588562510739635046279"
  by (simp add: sample_digest_def packed_layout_def zero_UserOperation_def LeftPadBytes_def
      U256Bytes_def word_bytes_def Bytes_def nat_bytes.simps foldl_replicate_zero upt_rec)

lemma sample_digest_outer_1_2:
  "sample_digest
     (word_bytes 32 (112165019040778588191518006088897237616671668545939879823816314964246925529159 :: hash)
      @ LeftPadBytes (word_bytes 20 entryPointAddress07) 32 @ U256Bytes 1)
   = 732102270691284821578336197846865512433154534854"
  by (simp add: sample_digest_def entryPointAddress07_def LeftPadBytes_def
      U256Bytes_def word_bytes_def Bytes_def nat_bytes.simps foldl_replicate_zero upt_rec)

lemma sample_digest_outer_2_1:
  "sample_digest
     (word_bytes 32 (112165019040778588191518279981635870272064309951520668766588562510739635046279 :: hash)
      @ LeftPadBytes (word_bytes 20 entryPointAddress07) 32 @ U256Bytes 1)
   = 732101245027614881064891101239339154720903312158"
  by (simp add: sample_digest_def entryPointAddress07_def LeftPadBytes_def
      U256Bytes_def word_bytes_def Bytes_def nat_bytes.simps foldl_replicate_zero upt_rec)


section \<open>Packing\<close>

text \<open>
  Claim C1, as amended. For every operation whose four paired values (verification gas
  limit, call gas limit, priority fee, fee) have a magnitude below \<open>2 ^ 128\<close>, that is, fit
  in 16 bytes, \<open>PackUserOperation\<close> succeeds and returns the spec's layout: the sender as
  an address slot, the nonce as a \<^verbatim>\<open>uint256\<close>, the digest of the empty init code, the
  digest of the call data, the 32-byte slot made of the verification gas limit left-padded
  to 16 bytes followed by the call gas limit left-padded to 16 bytes, the pre-verification
  gas as a \<^verbatim>\<open>uint256\<close>, the 32-byte slot made of the priority fee and the fee padded the
  same way, and the digest of the empty paymaster payload; 256 bytes in all.
\<close>

theorem pack_layout:
  assumes "\<bar>VerificationGasLimit op\<bar> < 2 ^ 128" and "\<bar>CallGasLimit op\<bar> < 2 ^ 128"
    and "\<bar>MaxPriorityFeePerGas op\<bar> < 2 ^ 128" and "\<bar>MaxFeePerGas op\<bar> < 2 ^ 128"
  shows "PackUserOperation keccak op = Inr (packed_layout keccak op)
         \<and> length (packed_layout keccak op) = 256"
proof -
  have len: "length (Bytes (VerificationGasLimit op)) \<le> 16" "length (Bytes (CallGasLimit op)) \<le> 16"
    "length (Bytes (MaxPriorityFeePerGas op)) \<le> 16" "length (Bytes (MaxFeePerGas op)) \<le> 16"
    using assms by (simp_all add: length_Bytes_le)
  have eq: "PackUserOperation keccak op = Inr (packed_layout keccak op)"
    by (simp add: PackUserOperation_bytes packed_layout_def toArray32_fits len)
  from length_PackUserOperation [OF eq] eq show ?thesis by simp
qed

text \<open>The hypotheses of C1 hold for the gas values of the spec's end-to-end scenario.\<close>

theorem pack_layout_witness:
  "\<bar>VerificationGasLimit (zero_UserOperation\<lparr>VerificationGasLimit := 50000, CallGasLimit := 30000,
        MaxPriorityFeePerGas := 100, MaxFeePerGas := 1000\<rparr>)\<bar> < 2 ^ 128
   \<and> PackUserOperation sample_digest
        (zero_UserOperation\<lparr>VerificationGasLimit := 50000, CallGasLimit := 30000,
          MaxPriorityFeePerGas := 100, MaxFeePerGas := 1000\<rparr>)
      = Inr (packed_layout sample_digest
        (zero_UserOperation\<lparr>VerificationGasLimit := 50000, CallGasLimit := 30000,
          MaxPriorityFeePerGas := 100, MaxFeePerGas := 1000\<rparr>))"
proof -
  let ?op = "zero_UserOperation\<lparr>VerificationGasLimit := 50000, CallGasLimit := 30000,
          MaxPriorityFeePerGas := 100, MaxFeePerGas := 1000\<rparr>"
  have h: "\<bar>VerificationGasLimit ?op\<bar> < 2 ^ 128" "\<bar>CallGasLimit ?op\<bar> < 2 ^ 128"
    "\<bar>MaxPriorityFeePerGas ?op\<bar> < 2 ^ 128" "\<bar>MaxFeePerGas ?op\<bar> < 2 ^ 128"
    by simp_all
  from pack_layout [OF h, of sample_digest] h(1) show ?thesis by blast
qed

lemma Bytes_0 [simp]: "Bytes 0 = []"
  by (simp add: Bytes_def nat_bytes.simps)

lemma length_Bytes_eq: "256 ^ k \<le> \<bar>x\<bar> \<Longrightarrow> \<bar>x\<bar> < 256 ^ Suc k \<Longrightarrow> length (Bytes x) = Suc k"
  using length_Bytes_le [of x k] length_Bytes_le [of x "Suc k"] by linarith

lemma length_Bytes_pow128: "length (Bytes 340282366920938463463374607431768211456) = 17"
  using length_Bytes_eq [of 16 340282366920938463463374607431768211456] by simp

text \<open>
  Claim C1 as stated, for every operation, fails: with a verification gas limit of
  \<open>2 ^ 128\<close> (17 bytes) the two halves take 33 bytes, which is no 32-byte slot, and the
  packed bytes are not the layout.
\<close>

theorem pack_layout_oversize_counterexample:
  "PackUserOperation sample_digest (zero_UserOperation\<lparr>VerificationGasLimit := 2 ^ 128\<rparr>)
     \<noteq> Inr (packed_layout sample_digest (zero_UserOperation\<lparr>VerificationGasLimit := 2 ^ 128\<rparr>))"
proof
  let ?op = "zero_UserOperation\<lparr>VerificationGasLimit := 2 ^ 128\<rparr>"
  assume eq: "PackUserOperation sample_digest ?op = Inr (packed_layout sample_digest ?op)"
  have "length (packed_layout sample_digest ?op) = 257"
    by (simp add: packed_layout_def length_Bytes_pow128 zero_UserOperation_def)
  with length_PackUserOperation [OF eq] show False by simp
qed

lemma flip_low_oversize:
  assumes "2 ^ 128 \<le> \<bar>y\<bar>"
  shows "2 ^ 128 \<le> \<bar>int (flip_low (nat \<bar>y\<bar>))\<bar>"
proof -
  define n where "n = nat \<bar>y\<bar>"
  have n: "(2::nat) ^ 128 \<le> n"
    using assms unfolding n_def by (simp add: le_nat_iff)
  have "(2::nat) ^ 128 \<le> flip_low n"
  proof (cases "even n")
    case True
    then show ?thesis using n by (simp add: flip_low_def)
  next
    case False
    have "even ((2::nat) ^ 128)" by simp
    with False have "n \<noteq> 2 ^ 128" by metis
    with n have "(2::nat) ^ 128 < n" by linarith
    then show ?thesis using False by (simp add: flip_low_def)
  qed
  then have "int (2 ^ 128) \<le> int (flip_low n)"
    by (simp only: of_nat_le_iff)
  then have "2 ^ 128 \<le> \<bar>int (flip_low n)\<bar>" by simp
  then show ?thesis unfolding n_def by blast
qed

lemma oversize_buffer:
  assumes "2 ^ 128 \<le> \<bar>x\<bar> \<or> 2 ^ 128 \<le> \<bar>y\<bar>"
  shows "32 < length (createPackedBuffer (Bytes x) (Bytes y))"
    and "toArray32 (createPackedBuffer (Bytes x) (Bytes y))
         = take 32 (createPackedBuffer (Bytes x) (Bytes y))"
    and "2 ^ 128 \<le> \<bar>x\<bar> \<longrightarrow> LeftPadBytes (Bytes x) 16 = Bytes x \<and> 16 < length (Bytes x)"
    and "2 ^ 128 \<le> \<bar>y\<bar> \<longrightarrow> LeftPadBytes (Bytes y) 16 = Bytes y \<and> 16 < length (Bytes y)"
    and "toArray32 (createPackedBuffer (Bytes x) (Bytes y))
         = take 32 (LeftPadBytes (Bytes x) 16 @ butlast (LeftPadBytes (Bytes y) 16))"
    and "int (flip_low (nat \<bar>y\<bar>)) \<noteq> y
         \<and> toArray32 (createPackedBuffer (Bytes x) (Bytes (int (flip_low (nat \<bar>y\<bar>)))))
           = toArray32 (createPackedBuffer (Bytes x) (Bytes y))"
proof -
  let ?buf = "createPackedBuffer (Bytes x) (Bytes y)"
  show len: "32 < length ?buf"
    using assms oversize_length [of x] oversize_length [of y]
    by (auto simp add: createPackedBuffer_def)
  then show "toArray32 ?buf = take 32 ?buf"
    by (simp add: toArray32_def)
  show "2 ^ 128 \<le> \<bar>x\<bar> \<longrightarrow> LeftPadBytes (Bytes x) 16 = Bytes x \<and> 16 < length (Bytes x)"
    using oversize_length [of x] by (auto simp add: LeftPadBytes_def)
  show "2 ^ 128 \<le> \<bar>y\<bar> \<longrightarrow> LeftPadBytes (Bytes y) 16 = Bytes y \<and> 16 < length (Bytes y)"
    using oversize_length [of y] by (auto simp add: LeftPadBytes_def)
  show "toArray32 ?buf = take 32 (LeftPadBytes (Bytes x) 16 @ butlast (LeftPadBytes (Bytes y) 16))"
    using slot_ignores_low_byte [OF assms] butlast_LeftPadBytes_nat_bytes [of "nat \<bar>y\<bar>" 15]
    by (simp add: Bytes_def)
  let ?y' = "int (flip_low (nat \<bar>y\<bar>))"
  have hyp': "2 ^ 128 \<le> \<bar>x\<bar> \<or> 2 ^ 128 \<le> \<bar>?y'\<bar>"
    using assms flip_low_oversize [of y] by blast
  have "toArray32 (createPackedBuffer (Bytes x) (Bytes ?y')) = toArray32 ?buf"
    by (simp add: slot_ignores_low_byte [OF hyp'] slot_ignores_low_byte [OF assms] flip_low_div)
  with flip_low_neq [of y]
  show "?y' \<noteq> y \<and> toArray32 (createPackedBuffer (Bytes x) (Bytes ?y')) = toArray32 ?buf"
    by simp
qed

lemma PackUserOperation_slots:
  "\<exists>packed. PackUserOperation keccak op = Inr packed
     \<and> take 32 (drop 128 packed)
         = toArray32 (createPackedBuffer (Bytes (VerificationGasLimit op)) (Bytes (CallGasLimit op)))
     \<and> take 32 (drop 192 packed)
         = toArray32 (createPackedBuffer (Bytes (MaxPriorityFeePerGas op)) (Bytes (MaxFeePerGas op)))"
  by (simp add: PackUserOperation_bytes)


text \<open>
  Claim C10. \<open>PackUserOperation\<close> never fails, and its two paired slots (bytes 128 to 159
  for the gas limits, bytes 192 to 223 for the fees) are \<open>toArray32\<close> of the two packed
  buffers. For either pair, when one of its two values is \<open>2 ^ 128\<close> or more in magnitude,
  the oversized half is written unpadded (more than 16 bytes), the buffer is longer than
  32 bytes, and the slot is its first 32 bytes: the last byte of the second value never
  reaches the slot. So another call gas limit (for the gas pair) or another fee (for the
  fee pair) gives the same packed bytes.
\<close>

theorem oversize_pair_truncated:
  "(\<exists>packed. PackUserOperation keccak op = Inr packed
      \<and> take 32 (drop 128 packed)
          = toArray32 (createPackedBuffer (Bytes (VerificationGasLimit op)) (Bytes (CallGasLimit op)))
      \<and> take 32 (drop 192 packed)
          = toArray32 (createPackedBuffer (Bytes (MaxPriorityFeePerGas op)) (Bytes (MaxFeePerGas op))))
   \<and> (2 ^ 128 \<le> \<bar>VerificationGasLimit op\<bar> \<or> 2 ^ 128 \<le> \<bar>CallGasLimit op\<bar> \<longrightarrow>
         (\<exists>packed. PackUserOperation keccak op = Inr packed
            \<and> take 32 (drop 128 packed)
                = take 32 (createPackedBuffer (Bytes (VerificationGasLimit op)) (Bytes (CallGasLimit op))))
       \<and> 32 < length (createPackedBuffer (Bytes (VerificationGasLimit op)) (Bytes (CallGasLimit op)))
       \<and> (2 ^ 128 \<le> \<bar>VerificationGasLimit op\<bar>
            \<longrightarrow> LeftPadBytes (Bytes (VerificationGasLimit op)) 16 = Bytes (VerificationGasLimit op)
                \<and> 16 < length (Bytes (VerificationGasLimit op)))
       \<and> (2 ^ 128 \<le> \<bar>CallGasLimit op\<bar>
            \<longrightarrow> LeftPadBytes (Bytes (CallGasLimit op)) 16 = Bytes (CallGasLimit op)
                \<and> 16 < length (Bytes (CallGasLimit op)))
       \<and> toArray32 (createPackedBuffer (Bytes (VerificationGasLimit op)) (Bytes (CallGasLimit op)))
           = take 32 (LeftPadBytes (Bytes (VerificationGasLimit op)) 16
                      @ butlast (LeftPadBytes (Bytes (CallGasLimit op)) 16))
       \<and> (\<exists>c. c \<noteq> CallGasLimit op
              \<and> PackUserOperation keccak (op\<lparr>CallGasLimit := c\<rparr>) = PackUserOperation keccak op))
   \<and> (2 ^ 128 \<le> \<bar>MaxPriorityFeePerGas op\<bar> \<or> 2 ^ 128 \<le> \<bar>MaxFeePerGas op\<bar> \<longrightarrow>
         (\<exists>packed. PackUserOperation keccak op = Inr packed
            \<and> take 32 (drop 192 packed)
                = take 32 (createPackedBuffer (Bytes (MaxPriorityFeePerGas op)) (Bytes (MaxFeePerGas op))))
       \<and> 32 < length (createPackedBuffer (Bytes (MaxPriorityFeePerGas op)) (Bytes (MaxFeePerGas op)))
       \<and> (2 ^ 128 \<le> \<bar>MaxPriorityFeePerGas op\<bar>
            \<longrightarrow> LeftPadBytes (Bytes (MaxPriorityFeePerGas op)) 16 = Bytes (MaxPriorityFeePerGas op)
                \<and> 16 < length (Bytes (MaxPriorityFeePerGas op)))
       \<and> (2 ^ 128 \<le> \<bar>MaxFeePerGas op\<bar>
            \<longrightarrow> LeftPadBytes (Bytes (MaxFeePerGas op)) 16 = Bytes (MaxFeePerGas op)
                \<and> 16 < length (Bytes (MaxFeePerGas op)))
       \<and> toArray32 (createPackedBuffer (Bytes (MaxPriorityFeePerGas op)) (Bytes (MaxFeePerGas op)))
           = take 32 (LeftPadBytes (Bytes (MaxPriorityFeePerGas op)) 16
                      @ butlast (LeftPadBytes (Bytes (MaxFeePerGas op)) 16))
       \<and> (\<exists>m. m \<noteq> MaxFeePerGas op
              \<and> PackUserOperation keccak (op\<lparr>MaxFeePerGas := m\<rparr>) = PackUserOperation keccak op))"
proof (intro conjI impI)
  show "\<exists>packed. PackUserOperation keccak op = Inr packed
      \<and> take 32 (drop 128 packed)
          = toArray32 (createPackedBuffer (Bytes (VerificationGasLimit op)) (Bytes (CallGasLimit op)))
      \<and> take 32 (drop 192 packed)
          = toArray32 (createPackedBuffer (Bytes (MaxPriorityFeePerGas op)) (Bytes (MaxFeePerGas op)))"
    by (rule PackUserOperation_slots)
next
  assume g: "2 ^ 128 \<le> \<bar>VerificationGasLimit op\<bar> \<or> 2 ^ 128 \<le> \<bar>CallGasLimit op\<bar>"
  note ob = oversize_buffer [OF g]
  show "\<exists>packed. PackUserOperation keccak op = Inr packed
            \<and> take 32 (drop 128 packed)
                = take 32 (createPackedBuffer (Bytes (VerificationGasLimit op)) (Bytes (CallGasLimit op)))"
    using PackUserOperation_slots [of keccak op] ob(2) by auto
  show "32 < length (createPackedBuffer (Bytes (VerificationGasLimit op)) (Bytes (CallGasLimit op)))"
    by (rule ob(1))
  show "toArray32 (createPackedBuffer (Bytes (VerificationGasLimit op)) (Bytes (CallGasLimit op)))
           = take 32 (LeftPadBytes (Bytes (VerificationGasLimit op)) 16
                      @ butlast (LeftPadBytes (Bytes (CallGasLimit op)) 16))"
    by (rule ob(5))
  have "PackUserOperation keccak (op\<lparr>CallGasLimit := int (flip_low (nat \<bar>CallGasLimit op\<bar>))\<rparr>)
      = PackUserOperation keccak op"
    using ob(6) by (simp add: PackUserOperation_bytes)
  with ob(6) show "\<exists>c. c \<noteq> CallGasLimit op
              \<and> PackUserOperation keccak (op\<lparr>CallGasLimit := c\<rparr>) = PackUserOperation keccak op"
    by blast
next
  assume "2 ^ 128 \<le> \<bar>VerificationGasLimit op\<bar>"
  then show "LeftPadBytes (Bytes (VerificationGasLimit op)) 16 = Bytes (VerificationGasLimit op)"
    and "16 < length (Bytes (VerificationGasLimit op))"
    using oversize_length [of "VerificationGasLimit op"] by (auto simp add: LeftPadBytes_def)
next
  assume "2 ^ 128 \<le> \<bar>CallGasLimit op\<bar>"
  then show "LeftPadBytes (Bytes (CallGasLimit op)) 16 = Bytes (CallGasLimit op)"
    and "16 < length (Bytes (CallGasLimit op))"
    using oversize_length [of "CallGasLimit op"] by (auto simp add: LeftPadBytes_def)
next
  assume f: "2 ^ 128 \<le> \<bar>MaxPriorityFeePerGas op\<bar> \<or> 2 ^ 128 \<le> \<bar>MaxFeePerGas op\<bar>"
  note ob = oversize_buffer [OF f]
  show "\<exists>packed. PackUserOperation keccak op = Inr packed
            \<and> take 32 (drop 192 packed)
                = take 32 (createPackedBuffer (Bytes (MaxPriorityFeePerGas op)) (Bytes (MaxFeePerGas op)))"
    using PackUserOperation_slots [of keccak op] ob(2) by auto
  show "32 < length (createPackedBuffer (Bytes (MaxPriorityFeePerGas op)) (Bytes (MaxFeePerGas op)))"
    by (rule ob(1))
  show "toArray32 (createPackedBuffer (Bytes (MaxPriorityFeePerGas op)) (Bytes (MaxFeePerGas op)))
           = take 32 (LeftPadBytes (Bytes (MaxPriorityFeePerGas op)) 16
                      @ butlast (LeftPadBytes (Bytes (MaxFeePerGas op)) 16))"
    by (rule ob(5))
  have "PackUserOperation keccak (op\<lparr>MaxFeePerGas := int (flip_low (nat \<bar>MaxFeePerGas op\<bar>))\<rparr>)
      = PackUserOperation keccak op"
    using ob(6) by (simp add: PackUserOperation_bytes)
  with ob(6) show "\<exists>m. m \<noteq> MaxFeePerGas op
              \<and> PackUserOperation keccak (op\<lparr>MaxFeePerGas := m\<rparr>) = PackUserOperation keccak op"
    by blast
next
  assume "2 ^ 128 \<le> \<bar>MaxPriorityFeePerGas op\<bar>"
  then show "LeftPadBytes (Bytes (MaxPriorityFeePerGas op)) 16 = Bytes (MaxPriorityFeePerGas op)"
    and "16 < length (Bytes (MaxPriorityFeePerGas op))"
    using oversize_length [of "MaxPriorityFeePerGas op"] by (auto simp add: LeftPadBytes_def)
next
  assume "2 ^ 128 \<le> \<bar>MaxFeePerGas op\<bar>"
  then show "LeftPadBytes (Bytes (MaxFeePerGas op)) 16 = Bytes (MaxFeePerGas op)"
    and "16 < length (Bytes (MaxFeePerGas op))"
    using oversize_length [of "MaxFeePerGas op"] by (auto simp add: LeftPadBytes_def)
qed

text \<open>
  The hypotheses of C10 hold for a verification gas limit of \<open>2 ^ 128\<close> and for a priority
  fee of \<open>2 ^ 128\<close>.
\<close>

theorem oversize_pair_truncated_witness:
  "2 ^ 128 \<le> \<bar>VerificationGasLimit (zero_UserOperation\<lparr>VerificationGasLimit := 2 ^ 128\<rparr>)\<bar>
   \<and> (\<exists>c. c \<noteq> CallGasLimit (zero_UserOperation\<lparr>VerificationGasLimit := 2 ^ 128\<rparr>)
          \<and> PackUserOperation sample_digest
               (zero_UserOperation\<lparr>VerificationGasLimit := 2 ^ 128, CallGasLimit := c\<rparr>)
             = PackUserOperation sample_digest
               (zero_UserOperation\<lparr>VerificationGasLimit := 2 ^ 128\<rparr>))
   \<and> 2 ^ 128 \<le> \<bar>MaxPriorityFeePerGas (zero_UserOperation\<lparr>MaxPriorityFeePerGas := 2 ^ 128\<rparr>)\<bar>
   \<and> (\<exists>m. m \<noteq> MaxFeePerGas (zero_UserOperation\<lparr>MaxPriorityFeePerGas := 2 ^ 128\<rparr>)
          \<and> PackUserOperation sample_digest
               (zero_UserOperation\<lparr>MaxPriorityFeePerGas := 2 ^ 128, MaxFeePerGas := m\<rparr>)
             = PackUserOperation sample_digest
               (zero_UserOperation\<lparr>MaxPriorityFeePerGas := 2 ^ 128\<rparr>))"
proof -
  let ?op1 = "zero_UserOperation\<lparr>VerificationGasLimit := 2 ^ 128\<rparr>"
  let ?op2 = "zero_UserOperation\<lparr>MaxPriorityFeePerGas := 2 ^ 128\<rparr>"
  have g1: "2 ^ 128 \<le> \<bar>VerificationGasLimit ?op1\<bar>" by simp
  then have g: "2 ^ 128 \<le> \<bar>VerificationGasLimit ?op1\<bar> \<or> 2 ^ 128 \<le> \<bar>CallGasLimit ?op1\<bar>"
    by (rule disjI1)
  have f1: "2 ^ 128 \<le> \<bar>MaxPriorityFeePerGas ?op2\<bar>" by simp
  then have f: "2 ^ 128 \<le> \<bar>MaxPriorityFeePerGas ?op2\<bar> \<or> 2 ^ 128 \<le> \<bar>MaxFeePerGas ?op2\<bar>"
    by (rule disjI1)
  from oversize_pair_truncated [of sample_digest ?op1] g
  have a: "\<exists>c. c \<noteq> CallGasLimit ?op1
          \<and> PackUserOperation sample_digest (?op1\<lparr>CallGasLimit := c\<rparr>)
             = PackUserOperation sample_digest ?op1"
    by blast
  from oversize_pair_truncated [of sample_digest ?op2] f
  have b: "\<exists>m. m \<noteq> MaxFeePerGas ?op2
          \<and> PackUserOperation sample_digest (?op2\<lparr>MaxFeePerGas := m\<rparr>)
             = PackUserOperation sample_digest ?op2"
    by blast
  from g1 a f1 b show ?thesis by blast
qed

text \<open>
  Claim C9, as amended. For two different values \<open>a\<close> and \<open>b\<close>, both at least 0 and below
  \<open>2 ^ 128\<close>, packing an operation with verification gas limit \<open>a\<close> and call gas limit
  \<open>b\<close> gives bytes different from packing it with the two swapped; and the two operation
  hashes differ whenever the digest function does not collide on the two packings nor on
  the two outer encodings.
\<close>

theorem swapped_pair_distinct:
  assumes ab: "a \<noteq> b" and a: "0 \<le> a" "a < 2 ^ 128" and b: "0 \<le> b" "b < 2 ^ 128"
    and p1: "PackUserOperation keccak (op\<lparr>VerificationGasLimit := a, CallGasLimit := b\<rparr>) = Inr p1"
    and p2: "PackUserOperation keccak (op\<lparr>VerificationGasLimit := b, CallGasLimit := a\<rparr>) = Inr p2"
    and inner: "inj_on keccak {p1, p2}"
    and outer: "inj_on keccak
        {word_bytes 32 (keccak p1) @ LeftPadBytes (word_bytes 20 (Address e)) 32 @ U256Bytes (ChainID e),
         word_bytes 32 (keccak p2) @ LeftPadBytes (word_bytes 20 (Address e)) 32 @ U256Bytes (ChainID e)}"
  shows "p1 \<noteq> p2
       \<and> GetUserOperationHash keccak e (op\<lparr>VerificationGasLimit := a, CallGasLimit := b\<rparr>)
          \<noteq> GetUserOperationHash keccak e (op\<lparr>VerificationGasLimit := b, CallGasLimit := a\<rparr>)"
proof -
  let ?op1 = "op\<lparr>VerificationGasLimit := a, CallGasLimit := b\<rparr>"
  let ?op2 = "op\<lparr>VerificationGasLimit := b, CallGasLimit := a\<rparr>"
  let ?tail = "LeftPadBytes (word_bytes 20 (Address e)) 32 @ U256Bytes (ChainID e)"
  have packed: "p1 \<noteq> p2"
  proof
    assume "p1 = p2"
    with p1 p2 have "PackUserOperation keccak ?op1 = PackUserOperation keccak ?op2" by simp
    from PackUserOperation_slot [OF this]
    have "toArray32 (createPackedBuffer (Bytes a) (Bytes b))
        = toArray32 (createPackedBuffer (Bytes b) (Bytes a))"
      by simp
    from pair_slot_inj [OF a b this] ab show False by simp
  qed
  with inner have "keccak p1 \<noteq> keccak p2"
    by (auto simp add: inj_on_def)
  then have "word_bytes 32 (keccak p1) \<noteq> word_bytes 32 (keccak p2)"
    using word_bytes_inj [of 32 "keccak p1" "keccak p2"] by auto
  then have "word_bytes 32 (keccak p1) @ ?tail \<noteq> word_bytes 32 (keccak p2) @ ?tail"
    by simp
  with outer have "keccak (word_bytes 32 (keccak p1) @ ?tail) \<noteq> keccak (word_bytes 32 (keccak p2) @ ?tail)"
    by (auto simp add: inj_on_def)
  then have "GetUserOperationHash keccak e ?op1 \<noteq> GetUserOperationHash keccak e ?op2"
    by (simp add: GetUserOperationHash_bytes p1 p2)
  with packed show ?thesis by simp
qed

text \<open>The hypotheses of C9 hold for the values 1 and 2 and the stand-in digest.\<close>

theorem swapped_pair_distinct_witness:
  "(1 :: int) \<noteq> 2
   \<and> (\<exists>p1 p2.
        PackUserOperation sample_digest
          (zero_UserOperation\<lparr>VerificationGasLimit := 1, CallGasLimit := 2\<rparr>) = Inr p1
        \<and> PackUserOperation sample_digest
          (zero_UserOperation\<lparr>VerificationGasLimit := 2, CallGasLimit := 1\<rparr>) = Inr p2
        \<and> p1 \<noteq> p2)
   \<and> GetUserOperationHash sample_digest
        \<lparr>Client = 0, Address = entryPointAddress07, Abi = entrypointAbi07 sample_digest, ChainID = 1\<rparr>
        (zero_UserOperation\<lparr>VerificationGasLimit := 1, CallGasLimit := 2\<rparr>)
     \<noteq> GetUserOperationHash sample_digest
        \<lparr>Client = 0, Address = entryPointAddress07, Abi = entrypointAbi07 sample_digest, ChainID = 1\<rparr>
        (zero_UserOperation\<lparr>VerificationGasLimit := 2, CallGasLimit := 1\<rparr>)"
proof -
  let ?e = "\<lparr>Client = 0, Address = entryPointAddress07, Abi = entrypointAbi07 sample_digest,
             ChainID = 1\<rparr>"
  let ?opA = "zero_UserOperation\<lparr>VerificationGasLimit := 1, CallGasLimit := 2\<rparr>"
  let ?opB = "zero_UserOperation\<lparr>VerificationGasLimit := 2, CallGasLimit := 1\<rparr>"
  let ?p1 = "packed_layout sample_digest ?opA" and ?p2 = "packed_layout sample_digest ?opB"
  have ab: "(1 :: int) \<noteq> 2" and a: "(0 :: int) \<le> 1" "(1 :: int) < 2 ^ 128"
    and b: "(0 :: int) \<le> 2" "(2 :: int) < 2 ^ 128"
    by simp_all
  have p1: "PackUserOperation sample_digest ?opA = Inr ?p1"
    by (rule PackUserOperation_layout) (simp_all add: zero_UserOperation_def)
  have p2: "PackUserOperation sample_digest ?opB = Inr ?p2"
    by (rule PackUserOperation_layout) (simp_all add: zero_UserOperation_def)
  have inner: "inj_on sample_digest {?p1, ?p2}"
    by (simp add: inj_on_def sample_digest_packed_1_2 sample_digest_packed_2_1)
  have outer: "inj_on sample_digest
        {word_bytes 32 (sample_digest ?p1) @ LeftPadBytes (word_bytes 20 (Address ?e)) 32
           @ U256Bytes (ChainID ?e),
         word_bytes 32 (sample_digest ?p2) @ LeftPadBytes (word_bytes 20 (Address ?e)) 32
           @ U256Bytes (ChainID ?e)}"
    by (simp add: inj_on_def sample_digest_packed_1_2 sample_digest_packed_2_1
        sample_digest_outer_1_2 sample_digest_outer_2_1)
  from swapped_pair_distinct [OF ab a b p1 p2 inner outer] p1 p2 ab
  show ?thesis by blast
qed

text \<open>
  Claim C9 as stated, for every pair of different values, fails: \<open>2 ^ 256\<close> and
  \<open>2 ^ 256 + 1\<close> are 33 bytes long and agree on their first 32 bytes, which is all the
  slot keeps, so the two packings, and with them the two hashes, are the same.
\<close>

theorem swapped_pair_oversize_counterexample:
  "(2 ^ 256 :: int) \<noteq> 2 ^ 256 + 1
   \<and> PackUserOperation sample_digest
        (zero_UserOperation\<lparr>VerificationGasLimit := 2 ^ 256, CallGasLimit := 2 ^ 256 + 1\<rparr>)
     = PackUserOperation sample_digest
        (zero_UserOperation\<lparr>VerificationGasLimit := 2 ^ 256 + 1, CallGasLimit := 2 ^ 256\<rparr>)
   \<and> GetUserOperationHash sample_digest
        \<lparr>Client = 0, Address = entryPointAddress07, Abi = entrypointAbi07 sample_digest, ChainID = 1\<rparr>
        (zero_UserOperation\<lparr>VerificationGasLimit := 2 ^ 256, CallGasLimit := 2 ^ 256 + 1\<rparr>)
     = GetUserOperationHash sample_digest
        \<lparr>Client = 0, Address = entryPointAddress07, Abi = entrypointAbi07 sample_digest, ChainID = 1\<rparr>
        (zero_UserOperation\<lparr>VerificationGasLimit := 2 ^ 256 + 1, CallGasLimit := 2 ^ 256\<rparr>)"
proof -
  have pk: "PackUserOperation sample_digest
        (zero_UserOperation\<lparr>VerificationGasLimit := 2 ^ 256, CallGasLimit := 2 ^ 256 + 1\<rparr>)
     = PackUserOperation sample_digest
        (zero_UserOperation\<lparr>VerificationGasLimit := 2 ^ 256 + 1, CallGasLimit := 2 ^ 256\<rparr>)"
    by (rule PackUserOperation_swap [OF oversize_swap_slot])
  have "(2 ^ 256 :: int) \<noteq> 2 ^ 256 + 1" by simp
  with pk show ?thesis
    by (simp only: GetUserOperationHash_bytes) simp
qed

section \<open>Hashing\<close>

text \<open>
  Claim C2. For every operation, \<open>GetUserOperationHash\<close> returns the digest of the tuple
  encoding (\<^verbatim>\<open>bytes32\<close>, \<^verbatim>\<open>address\<close>, \<^verbatim>\<open>uint256\<close>) of the digest of the packed operation, the
  gateway's entry point address and its chain identifier. Both encodings succeed on the
  values the function builds, so the only failures the function can report, those of the
  two encodings, do not arise.
\<close>

theorem operation_hash_is_double_digest:
  "\<exists>packedOp encoded.
     PackUserOperation keccak op = Inr packedOp
     \<and> Arguments_Pack [bytes32, address, uint256]
          [GoArray (word_bytes 32 (keccak packedOp)), GoArray (word_bytes 20 (Address e)),
           GoBigInt (ChainID e)] = Inr encoded
     \<and> encoded = word_bytes 32 (keccak packedOp) @ LeftPadBytes (word_bytes 20 (Address e)) 32
                   @ U256Bytes (ChainID e)
     \<and> GetUserOperationHash keccak e op = Inr (keccak encoded)"
proof -
  obtain packedOp where p: "PackUserOperation keccak op = Inr packedOp"
    by (simp add: PackUserOperation_bytes)
  have "Arguments_Pack [bytes32, address, uint256]
          [GoArray (word_bytes 32 (keccak packedOp)), GoArray (word_bytes 20 (Address e)),
           GoBigInt (ChainID e)]
        = Inr (word_bytes 32 (keccak packedOp) @ LeftPadBytes (word_bytes 20 (Address e)) 32
                   @ U256Bytes (ChainID e))"
    by (simp add: Arguments_Pack_def type_pack_def address_def uint256_def bytes32_def
        RightPadBytes_def)
  moreover have "GetUserOperationHash keccak e op =
      Inr (keccak (word_bytes 32 (keccak packedOp) @ LeftPadBytes (word_bytes 20 (Address e)) 32
                   @ U256Bytes (ChainID e)))"
    by (simp add: GetUserOperationHash_bytes p)
  ultimately show ?thesis using p by blast
qed

text \<open>
  Claim C3. Whatever the paymaster address and paymaster data of an operation are, the
  packed bytes and the operation hash are the same as without them, and the last slot of
  the packed bytes is the digest of the empty byte sequence.
\<close>

theorem paymaster_fields_ignored:
  "PackUserOperation keccak (op\<lparr>Paymaster := p, PaymasterData := d\<rparr>) = PackUserOperation keccak op
   \<and> GetUserOperationHash keccak e (op\<lparr>Paymaster := p, PaymasterData := d\<rparr>)
       = GetUserOperationHash keccak e op
   \<and> (\<exists>packed. PackUserOperation keccak op = Inr packed \<and> length packed = 256
        \<and> drop 224 packed = word_bytes 32 (keccak []))"
proof -
  have a: "PackUserOperation keccak (op\<lparr>Paymaster := p, PaymasterData := d\<rparr>)
        = PackUserOperation keccak op"
    by (simp add: PackUserOperation_bytes)
  then have b: "GetUserOperationHash keccak e (op\<lparr>Paymaster := p, PaymasterData := d\<rparr>)
       = GetUserOperationHash keccak e op"
    by (simp add: GetUserOperationHash_bytes)
  obtain packed where pk: "PackUserOperation keccak op = Inr packed"
    by (simp add: PackUserOperation_bytes)
  have "drop 224 packed = word_bytes 32 (keccak [])"
    using pk by (simp add: PackUserOperation_bytes) auto
  with a b pk length_PackUserOperation [OF pk] show ?thesis by blast
qed

section \<open>The entry point gateway: nonce lookup\<close>

lemma fromHexChar_hextable:
  "i < 16 \<Longrightarrow> fromHexChar (hextable ! i) = Some i"
proof -
  assume "i < 16"
  then have "i \<in> set [0..<16]" by simp
  then show ?thesis
    by (auto simp add: upt_rec hextable_def fromHexChar_def)
qed

lemma DecodeString_hex_byte:
  "DecodeString (hex_byte b @ rest) =
     (case DecodeString rest of Inl e \<Rightarrow> Inl e | Inr bs \<Rightarrow> Inr (b # bs))"
proof -
  have hi: "unat b div 16 < 16"
    using unsigned_less [of b, where ?'a = nat] by (simp add: less_mult_imp_div_less)
  have lo: "unat b mod 16 < 16" by simp
  have "(of_nat (16 * (unat b div 16) + unat b mod 16) :: byte) = b"
    by simp
  then show ?thesis
    by (simp add: hex_byte_def fromHexChar_hextable [OF hi] fromHexChar_hextable [OF lo]
        split: sum.split)
qed

lemma DecodeString_EncodeToString: "DecodeString (EncodeToString bs) = Inr bs"
proof (induction bs)
  case Nil
  then show ?case by (simp add: EncodeToString_def)
next
  case (Cons b bs)
  have "EncodeToString (b # bs) = hex_byte b @ EncodeToString bs"
    by (simp add: EncodeToString_def)
  then show ?case using Cons by (simp add: DecodeString_hex_byte)
qed

lemma hexutil_roundtrip: "hexutil_Decode (hexutil_Encode b) = Inr b"
  by (simp add: hexutil_Decode_def hexutil_Encode_def has0xPrefix_def DecodeString_EncodeToString)

lemma U256Bytes_0: "U256Bytes 0 = replicate 32 0"
  by (simp add: U256Bytes_def LeftPadBytes_def)

lemma getNonce_call_data:
  "ABI_Pack (entrypointAbi07 keccak) ''getNonce'' [GoArray (word_bytes 20 account), GoBigInt k]
   = Inr (take 4 (word_bytes 32 (keccak (string_bytes ''getNonce(address,uint192)'')))
          @ LeftPadBytes (word_bytes 20 account) 32 @ U256Bytes k)"
  by (simp add: ABI_Pack_def entrypointAbi07_def Arguments_Pack_def type_pack_def)

lemma GetNonce_entrypoint07:
  assumes "Abi e = entrypointAbi07 keccak"
  shows "GetNonce e account w =
     (case respond w (issued w)
             (Client e, ''eth_call'',
              \<lparr>To = Address e,
               Data = take 4 (word_bytes 32 (keccak (string_bytes ''getNonce(address,uint192)'')))
                      @ LeftPadBytes (word_bytes 20 account) 32 @ replicate 32 0\<rparr>) of
        Inl err \<Rightarrow> Inl (Wrap err ''failed to call getNonce eth_call'')
      | Inr hex \<Rightarrow> Inr (SetBytes hex),
      w\<lparr>issued := issued w @
          [(Client e, ''eth_call'',
            \<lparr>To = Address e,
             Data = take 4 (word_bytes 32 (keccak (string_bytes ''getNonce(address,uint192)'')))
                    @ LeftPadBytes (word_bytes 20 account) 32 @ replicate 32 0\<rparr>)]\<rparr>)"
  by (simp add: GetNonce_def computeKey_def assms getNonce_call_data U256Bytes_0 CallContext_def
      hexutil_roundtrip split: sum.split)

lemma GetNonce_no_decode_error:
  "fst (GetNonce e account w) \<noteq> Inl (Wrap err ''failed to decode getNonce hex'')"
  by (simp add: GetNonce_def Let_def hexutil_roundtrip CallContext_def split: sum.split prod.split)

text \<open>
  Claim C4. For every account, \<open>GetNonce\<close> on the gateway that \<open>NewEntrypoint07\<close> builds
  issues exactly one \<^verbatim>\<open>eth_call\<close>, to the entry point address, whose data is the selector
  of \<^verbatim>\<open>getNonce(address,uint192)\<close>, the account as an address slot and a key slot of 32
  zero bytes: the key is \<open>computeKey account = 0\<close>, whatever the account.
\<close>

theorem getNonce_key_is_zero:
  assumes "NewEntrypoint07 keccak rpcClient chainID = Inr e"
  shows "computeKey account = 0
       \<and> issued (snd (GetNonce e account w)) =
           issued w @
           [(rpcClient, ''eth_call'',
             \<lparr>To = entryPointAddress07,
              Data = take 4 (word_bytes 32 (keccak (string_bytes ''getNonce(address,uint192)'')))
                     @ LeftPadBytes (word_bytes 20 account) 32 @ replicate 32 0\<rparr>)]"
proof -
  from assms have e: "Abi e = entrypointAbi07 keccak" "Client e = rpcClient"
    "Address e = entryPointAddress07"
    by (auto simp add: NewEntrypoint07_def)
  show ?thesis
    by (simp add: GetNonce_entrypoint07 [OF e(1)] e computeKey_def)
qed

text \<open>The hypothesis of C4 holds for the gateway of the sample client.\<close>

theorem getNonce_key_is_zero_witness:
  "NewEntrypoint07 sample_digest 0 1 = Inr (EntryPoint sample_client)
   \<and> issued (snd (GetNonce (EntryPoint sample_client) 0xAAAAAAAAAAAAAAAAAAAAAAAAAAAAAAAAAAAAAAAA
                  sample_network)) =
       [(0, ''eth_call'',
         \<lparr>To = entryPointAddress07,
          Data = take 4 (word_bytes 32 (sample_digest (string_bytes ''getNonce(address,uint192)'')))
                 @ LeftPadBytes (word_bytes 20 (0xAAAAAAAAAAAAAAAAAAAAAAAAAAAAAAAAAAAAAAAA :: address)) 32
                 @ replicate 32 0\<rparr>)]"
proof -
  have h: "NewEntrypoint07 sample_digest 0 1 = Inr (EntryPoint sample_client)"
    by (simp add: NewEntrypoint07_def sample_client_def)
  have "issued sample_network = []"
    by (simp add: sample_network_def)
  with getNonce_key_is_zero [OF h, of "0xAAAAAAAAAAAAAAAAAAAAAAAAAAAAAAAAAAAAAAAA" sample_network] h
  show ?thesis by simp
qed

text \<open>
  Claim C7, as amended. On the gateway that \<open>NewEntrypoint07\<close> builds, \<open>GetNonce\<close> fails
  with the wrapped call error when the \<^verbatim>\<open>eth_call\<close> fails (a reply that does not unmarshal
  into bytes fails inside the call); when the call yields bytes, \<open>GetNonce\<close> returns their
  big-endian value. It never fails with the error of the decoding step, since decoding
  the hex text of the bytes just received cannot fail.
\<close>

theorem getNonce_failures:
  assumes "NewEntrypoint07 keccak rpcClient chainID = Inr e"
  shows "(\<forall>err.
            fst (CallContext rpcClient ''eth_call''
                  \<lparr>To = entryPointAddress07,
                   Data = take 4 (word_bytes 32 (keccak (string_bytes ''getNonce(address,uint192)'')))
                          @ LeftPadBytes (word_bytes 20 account) 32 @ replicate 32 0\<rparr> w) = Inl err
            \<longrightarrow> fst (GetNonce e account w) = Inl (Wrap err ''failed to call getNonce eth_call''))
       \<and> (\<forall>hex.
            fst (CallContext rpcClient ''eth_call''
                  \<lparr>To = entryPointAddress07,
                   Data = take 4 (word_bytes 32 (keccak (string_bytes ''getNonce(address,uint192)'')))
                          @ LeftPadBytes (word_bytes 20 account) 32 @ replicate 32 0\<rparr> w) = Inr hex
            \<longrightarrow> fst (GetNonce e account w) = Inr (SetBytes hex))
       \<and> (\<forall>err. fst (GetNonce e account w) \<noteq> Inl (Wrap err ''failed to decode getNonce hex''))"
proof -
  from assms have e: "Abi e = entrypointAbi07 keccak" "Client e = rpcClient"
    "Address e = entryPointAddress07"
    by (auto simp add: NewEntrypoint07_def)
  have "\<forall>err. fst (GetNonce e account w) \<noteq> Inl (Wrap err ''failed to decode getNonce hex'')"
    by (simp add: GetNonce_no_decode_error)
  then show ?thesis
    by (simp add: GetNonce_entrypoint07 [OF e(1)] e CallContext_def)
qed

text \<open>
  The hypothesis of C7 holds for the gateway of the sample client; both outcomes of the
  call are shown, on a node that fails and on a node that answers.
\<close>

theorem getNonce_failures_witness:
  "NewEntrypoint07 sample_digest 0 1 = Inr (EntryPoint sample_client)
   \<and> fst (GetNonce (EntryPoint sample_client) 0 failing_network)
       = Inl (Wrap (External ''connection reset'') ''failed to call getNonce eth_call'')
   \<and> fst (GetNonce (EntryPoint sample_client) 0 sample_network) = Inr 256"
proof -
  have h: "NewEntrypoint07 sample_digest 0 1 = Inr (EntryPoint sample_client)"
    by (simp add: NewEntrypoint07_def sample_client_def)
  have f: "fst (GetNonce (EntryPoint sample_client) 0 failing_network)
       = Inl (Wrap (External ''connection reset'') ''failed to call getNonce eth_call'')"
    using getNonce_failures [OF h, of 0 failing_network]
    by (simp add: CallContext_def failing_network_def)
  have "SetBytes [1, 0] = 256"
    by (simp add: SetBytes_def bytes_nat_def)
  then have s: "fst (GetNonce (EntryPoint sample_client) 0 sample_network) = Inr 256"
    using getNonce_failures [OF h, of 0 sample_network]
    by (simp add: CallContext_def sample_network_def)
  from h f s show ?thesis by simp
qed

text \<open>
  Claim C7 as stated says that some response makes \<open>GetNonce\<close> fail at the decoding step.
  No gateway, account and network state do.
\<close>

theorem getNonce_decode_branch_counterexample:
  "\<not> (\<exists>e account w err.
         fst (GetNonce e account w) = Inl (Wrap err ''failed to decode getNonce hex''))"
  by (simp add: GetNonce_no_decode_error)

section \<open>The client's operations\<close>

text \<open>
  Claim C5. Whenever \<open>GetUserOperationAndHashToSign\<close> succeeds, the sponsorship call made
  on the operation built so far (sender, nonce, call data and the standard fees) returned
  a response, and the returned operation, which is the one whose hash is returned, has the
  call gas limit, the verification gas limit and the pre-verification gas of that
  response, whatever the operation handed back by the sponsorship call held in them.
\<close>

theorem sponsorship_overrides_gas:
  assumes "GetUserOperationAndHashToSign keccak c sender callData w = (Inr (op, opHash), w')"
  shows "\<exists>nonce gasPrice sponsorResponse opLeft.
           fst (GetNonce (EntryPoint c) sender w) = Inr nonce
         \<and> GetUserOperationGasPrice (BundlerClient c) = Inr gasPrice
         \<and> SponsorUserOperation (PaymasterClient c)
              (zero_UserOperation\<lparr>Sender := sender, Nonce := nonce, CallData := callData,
                 MaxFeePerGas := price_MaxFeePerGas (Standard gasPrice),
                 MaxPriorityFeePerGas := price_MaxPriorityFeePerGas (Standard gasPrice)\<rparr>)
             = (Inr sponsorResponse, opLeft)
         \<and> CallGasLimit op = resp_CallGasLimit sponsorResponse
         \<and> VerificationGasLimit op = resp_VerificationGasLimit sponsorResponse
         \<and> PreVerificationGas op = resp_PreVerificationGas sponsorResponse
         \<and> GetUserOperationHash keccak (EntryPoint c) op = Inr opHash"
  using assms
  by (auto simp add: GetUserOperationAndHashToSign_def Let_def split: sum.splits prod.splits)

lemma sample_build_succeeds:
  "\<exists>op opHash w'.
     GetUserOperationAndHashToSign sample_digest sample_client (signer_GetAddress sample_signer)
       [222, 173, 190, 239] sample_network = (Inr (op, opHash), w')"
  by (simp add: GetUserOperationAndHashToSign_def Let_def sample_client_def
      GetNonce_entrypoint07 [where keccak = sample_digest] sample_network_def sample_bundler_def
      sample_paymaster_def GetUserOperationHash_bytes PackUserOperation_bytes)

text \<open>
  The hypothesis of C5 holds for the sample client, whose paymaster leaves 7, 8 and 9 in
  the three gas fields and answers 30000, 50000 and 21000.
\<close>

theorem sponsorship_overrides_gas_witness:
  "\<exists>op opHash w'.
     GetUserOperationAndHashToSign sample_digest sample_client (signer_GetAddress sample_signer)
       [222, 173, 190, 239] sample_network = (Inr (op, opHash), w')
     \<and> CallGasLimit op = 30000 \<and> VerificationGasLimit op = 50000 \<and> PreVerificationGas op = 21000"
proof -
  from sample_build_succeeds obtain op opHash w' where
    ok: "GetUserOperationAndHashToSign sample_digest sample_client (signer_GetAddress sample_signer)
       [222, 173, 190, 239] sample_network = (Inr (op, opHash), w')"
    by blast
  from sponsorship_overrides_gas [OF ok]
  have "CallGasLimit op = 30000 \<and> VerificationGasLimit op = 50000 \<and> PreVerificationGas op = 21000"
    by (auto simp add: sample_client_def sample_paymaster_def)
  with ok show ?thesis by blast
qed

text \<open>
  Claim C8. If the submission succeeds with an identifier, \<open>SendSignedUserOperation\<close>
  returns a result with that identifier and no error, for either value of
  \<open>waitForReceipt\<close> and whatever the receipt polling returns; the receipt of the result is
  the one the polling returned, so it is absent when the polling failed with an error and
  no receipt.
\<close>

theorem submission_swallows_receipt_failure:
  assumes "bundler_SendUserOperation (BundlerClient c) signedOp = Inr response"
  shows "SendSignedUserOperation c signedOp waitForReceipt =
           Inr \<lparr>UserOperationHash = response,
                Receipt =
                  (if waitForReceipt
                   then fst (bundler_GetUserOperationReceipt (BundlerClient c) response
                               (ReceiptPollingDelay c) (ReceiptPollingRetries c))
                   else None)\<rparr>
       \<and> (\<forall>err.
             bundler_GetUserOperationReceipt (BundlerClient c) response
               (ReceiptPollingDelay c) (ReceiptPollingRetries c) = (None, Some err)
             \<longrightarrow> SendSignedUserOperation c signedOp True =
                   Inr \<lparr>UserOperationHash = response, Receipt = None\<rparr>)"
  using assms by (simp add: SendSignedUserOperation_def)

text \<open>The hypotheses of C8 hold for the sample client, whose bundler finds no receipt.\<close>

theorem submission_swallows_receipt_failure_witness:
  "bundler_SendUserOperation (BundlerClient sample_client) zero_UserOperation = Inr [171, 205]
   \<and> bundler_GetUserOperationReceipt (BundlerClient sample_client) [171, 205]
        (ReceiptPollingDelay sample_client) (ReceiptPollingRetries sample_client)
       = (None, Some (External ''receipt not found''))
   \<and> SendSignedUserOperation sample_client zero_UserOperation True =
       Inr \<lparr>UserOperationHash = [171, 205], Receipt = None\<rparr>"
proof -
  have h: "bundler_SendUserOperation (BundlerClient sample_client) zero_UserOperation = Inr [171, 205]"
    by (simp add: sample_client_def sample_bundler_def)
  have r: "bundler_GetUserOperationReceipt (BundlerClient sample_client) [171, 205]
        (ReceiptPollingDelay sample_client) (ReceiptPollingRetries sample_client)
       = (None, Some (External ''receipt not found''))"
    by (simp add: sample_client_def sample_bundler_def)
  from submission_swallows_receipt_failure [OF h, of True] h r show ?thesis by simp
qed

text \<open>
  Claim C6 says that a failure after the dials closes every connection opened so far,
  each once. The code does otherwise: whenever \<open>NewClient\<close> fails while initializing the
  entry point, the paymaster client, the bundler client or the signer, the three dials
  have opened the connections \<open>dialed w\<close>, \<open>dialed w + 1\<close> and \<open>dialed w + 2\<close> (node,
  paymaster, bundler), and the \<^verbatim>\<open>Close\<close> calls made are on the node connection, the
  paymaster connection and the node connection again: the bundler connection stays open
  and the node connection is closed twice.
\<close>

theorem newClient_init_failure_closes:
  assumes "NewClient keccak env config w = (Inl (Wrap err msg), w')"
    and "msg \<in> {''failed to initialize entrypoint'', ''failed to initialize paymasterClient'',
                 ''failed to initialize bundlerClient'', ''failed to initialize signer''}"
  shows "closed w' = closed w @ [dialed w, Suc (dialed w), dialed w]
       \<and> dialed w' = Suc (Suc (Suc (dialed w)))"
  using assms
  by (auto simp add: NewClient_def Dial_def Close_def Let_def NewEntrypoint07_def
      split: if_splits option.splits sum.splits prod.splits)

text \<open>
  The failing input of C6: a valid configuration, three successful dials and a signer
  that cannot be built. Connections 0 and 1 are closed, 0 twice, and 2 never.
\<close>

theorem newClient_init_failure_closes_witness:
  "NewClient sample_digest
     (sample_constructors\<lparr>NewSmartAccountPrivateKeySigner :=
        (\<lambda>rpcClient account pk. Inl (External ''invalid key''))\<rparr>)
     sample_config sample_network
   = (Inl (Wrap (External ''invalid key'') ''failed to initialize signer''),
      sample_network\<lparr>dialed := 3, closed := [0, 1, 0]\<rparr>)
   \<and> closed (sample_network\<lparr>dialed := 3, closed := [0, 1, 0]\<rparr>)
       = closed sample_network @ [dialed sample_network, Suc (dialed sample_network),
                                  dialed sample_network]"
proof -
  have h: "NewClient sample_digest
     (sample_constructors\<lparr>NewSmartAccountPrivateKeySigner :=
        (\<lambda>rpcClient account pk. Inl (External ''invalid key''))\<rparr>)
     sample_config sample_network
   = (Inl (Wrap (External ''invalid key'') ''failed to initialize signer''),
      sample_network\<lparr>dialed := 3, closed := [0, 1, 0]\<rparr>)"
    by (simp add: NewClient_def sample_config_def sample_constructors_def sample_network_def
      EntryPointVersion07_def Dial_def Close_def NewEntrypoint07_def)
  have m: "''failed to initialize signer'' \<in> {''failed to initialize entrypoint'',
       ''failed to initialize paymasterClient'', ''failed to initialize bundlerClient'',
       ''failed to initialize signer''}"
    by simp
  from newClient_init_failure_closes [OF h m] h show ?thesis by blast
qed

text \<open>
  The branch for a failed bundler dial, by contrast, closes the two connections opened
  before it once each.
\<close>

lemma newClient_bundler_dial_failure_closes:
  "NewClient sample_digest sample_constructors sample_config
     (sample_network\<lparr>refused := (\<lambda>rawurl.
        if rawurl = ''http://bundler'' then Some (External ''no route'') else None)\<rparr>)
   = (Inl (Wrap (External ''no route'') ''failed to connect to Bundler''),
      sample_network\<lparr>refused := (\<lambda>rawurl.
        if rawurl = ''http://bundler'' then Some (External ''no route'') else None),
        dialed := 2, closed := [1, 0]\<rparr>)"
  by (simp add: NewClient_def sample_config_def sample_constructors_def sample_network_def
      EntryPointVersion07_def Dial_def Close_def NewEntrypoint07_def)

end
